theory Spec2Isabelle
  imports Complex_Main "HOL-Library.Sublist"
begin

section \<open>JavaScript values and strings\<close>

text \<open>
  A JavaScript string is a sequence of UTF-16 code units. The model carries a code unit as
  a natural number (below 65536 in every string the program can see; no definition uses
  the bound) and a string as the list of its code units, so that \<open>length\<close> is the
  \<open>.length\<close> of the source. A string literal of the source is written \<open>js ''...''\<close>: the
  code units of its ASCII characters.
\<close>

type_synonym code_unit = nat

type_synonym jstring = "code_unit list"

definition js :: "string \<Rightarrow> jstring" where
  "js s = map of_char s"

text \<open>
  The values that \<open>JSON.parse\<close> produces: \<open>null\<close>, booleans, finite numbers, strings,
  arrays and objects. An object is the list of its own properties in property order.
  \<open>undefined\<close> is not a JSON value; where the source can see it (a missing property) the
  model uses an option type with \<open>None\<close> for \<open>undefined\<close>.
\<close>

datatype json =
    JNull
  | JBool bool
  | JNum real
  | JStr jstring
  | JArr "json list"
  | JObj "(jstring \<times> json) list"

datatype js_error = TypeError | SyntaxError

text \<open>\<open>String.prototype.trim\<close> removes white space and line terminators from both ends:
  TAB, LF, VT, FF, CR, SPACE, NO-BREAK SPACE, OGHAM SPACE MARK, EN QUAD to HAIR SPACE
  (\<open>U+2000\<close> to \<open>U+200A\<close>), LINE SEPARATOR, PARAGRAPH SEPARATOR, NARROW NO-BREAK SPACE,
  MEDIUM MATHEMATICAL SPACE, IDEOGRAPHIC SPACE and the byte order mark.\<close>

definition is_ws :: "code_unit \<Rightarrow> bool" where
  "is_ws c \<longleftrightarrow>
     c \<in> set [9, 10, 11, 12, 13, 32, 160, 5760,
               8192, 8193, 8194, 8195, 8196, 8197, 8198, 8199, 8200, 8201, 8202,
               8232, 8233, 8239, 8287, 12288, 65279]"

definition trim :: "jstring \<Rightarrow> jstring" where
  "trim s = rev (dropWhile is_ws (rev (dropWhile is_ws s)))"

text \<open>\<open>String.prototype.includes(searchString)\<close>: some suffix of the string starts with
  the search string.\<close>

fun includes_js :: "jstring \<Rightarrow> jstring \<Rightarrow> bool" where
  "includes_js [] sub = (sub = [])"
| "includes_js (c # cs) sub = (prefix sub (c # cs) \<or> includes_js cs sub)"

text \<open>Property read \<open>v.k\<close>, for the keys \<open>name\<close>, \<open>email\<close> and \<open>password\<close> the source
  reads (none of them is on a built-in prototype): \<open>null.k\<close> throws a TypeError, an
  object gives its own property or \<open>undefined\<close>, every other value gives \<open>undefined\<close>.\<close>

fun get_prop :: "json \<Rightarrow> jstring \<Rightarrow> js_error + json option" where
  "get_prop JNull k = Inl TypeError"
| "get_prop (JObj kvs) k = Inr (map_of kvs k)"
| "get_prop v k = Inr None"

text \<open>Strict equality \<open>a === b\<close> of two values that come from different parses or
  literals: primitives compare by value, and two objects or arrays are never the same
  reference.\<close>

fun strict_eq :: "json option \<Rightarrow> json option \<Rightarrow> bool" where
  "strict_eq None None = True"
| "strict_eq (Some JNull) (Some JNull) = True"
| "strict_eq (Some (JBool a)) (Some (JBool b)) = (a = b)"
| "strict_eq (Some (JNum a)) (Some (JNum b)) = (a = b)"
| "strict_eq (Some (JStr a)) (Some (JStr b)) = (a = b)"
| "strict_eq a b = False"

text \<open>Truthiness, as \<open>!v\<close> and \<open>if (v)\<close> test it.\<close>

fun truthy :: "json \<Rightarrow> bool" where
  "truthy JNull = False"
| "truthy (JBool b) = b"
| "truthy (JNum r) = (r \<noteq> 0)"
| "truthy (JStr s) = (s \<noteq> [])"
| "truthy (JArr xs) = True"
| "truthy (JObj kvs) = True"

text \<open>Decimal digits of an array index, the property key of an element.\<close>

fun show_nat :: "nat \<Rightarrow> jstring" where
  "show_nat n =
     (if n < 10 then [48 + n]
      else show_nat (n div 10) @ [48 + n mod 10])"

text \<open>Object spread \<open>{...v}\<close>: the own enumerable properties of \<open>v\<close>. An array or a string
  spreads to its indexed elements; numbers, booleans and \<open>null\<close> spread to nothing.\<close>

fun spread :: "json \<Rightarrow> (jstring \<times> json) list" where
  "spread (JObj kvs) = kvs"
| "spread (JArr xs) = zip (map show_nat [0..<length xs]) xs"
| "spread (JStr s) = zip (map show_nat [0..<length s]) (map (\<lambda>c. JStr [c]) s)"
| "spread v = []"

text \<open>A property \<open>k: v\<close> written after a spread in an object literal: an existing property
  keeps its place and takes the new value, a new one goes to the end.\<close>

fun obj_set :: "jstring \<Rightarrow> json \<Rightarrow> (jstring \<times> json) list \<Rightarrow> (jstring \<times> json) list" where
  "obj_set k v [] = [(k, v)]"
| "obj_set k v ((k', v') # kvs) =
     (if k' = k then (k, v) # kvs else (k', v') # obj_set k v kvs)"

text \<open>\<open>Array.prototype.find\<close>, \<open>some\<close> and \<open>findIndex\<close> with a callback that can throw:
  the elements are visited in order, the first hit ends the search, and an exception of
  the callback leaves the search at once. \<open>findIndex\<close> gives \<open>None\<close> for the source's
  \<open>-1\<close>.\<close>

fun find_js :: "('a \<Rightarrow> js_error + bool) \<Rightarrow> 'a list \<Rightarrow> js_error + 'a option" where
  "find_js p [] = Inr None"
| "find_js p (x # xs) =
     (case p x of
        Inl e \<Rightarrow> Inl e
      | Inr b \<Rightarrow> if b then Inr (Some x) else find_js p xs)"

fun some_js :: "('a \<Rightarrow> js_error + bool) \<Rightarrow> 'a list \<Rightarrow> js_error + bool" where
  "some_js p [] = Inr False"
| "some_js p (x # xs) =
     (case p x of
        Inl e \<Rightarrow> Inl e
      | Inr b \<Rightarrow> if b then Inr True else some_js p xs)"

fun findIndex_js :: "('a \<Rightarrow> js_error + bool) \<Rightarrow> 'a list \<Rightarrow> js_error + nat option" where
  "findIndex_js p [] = Inr None"
| "findIndex_js p (x # xs) =
     (case p x of
        Inl e \<Rightarrow> Inl e
      | Inr b \<Rightarrow>
          if b then Inr (Some 0)
          else (case findIndex_js p xs of
                  Inl e \<Rightarrow> Inl e
                | Inr None \<Rightarrow> Inr None
                | Inr (Some i) \<Rightarrow> Inr (Some (Suc i))))"

section \<open>Storage utilities (localStorage)\<close>

text \<open>
  \<open>localStorage\<close> maps keys to texts. \<open>JSON.parse\<close>, \<open>JSON.stringify\<close> and
  \<open>String.prototype.toLowerCase\<close> belong to the host, not to this program; the model takes
  them as a parameter. \<open>JSON_parse\<close> gives \<open>None\<close> where \<open>JSON.parse\<close> throws a
  SyntaxError. \<open>String_toLowerCase\<close> is the host's lower-casing of a whole string; it is
  not a map over the code units (a capital sigma becomes a final or a medial small sigma
  by its position in the word).
\<close>

type_synonym storage = "jstring \<rightharpoonup> jstring"

record host =
  JSON_parse :: "jstring \<Rightarrow> json option"
  JSON_stringify :: "json \<Rightarrow> jstring"
  String_toLowerCase :: "jstring \<Rightarrow> jstring"

definition STORAGE_KEYS_users :: jstring where
  "STORAGE_KEYS_users = js ''app.users''"

definition STORAGE_KEYS_session :: jstring where
  "STORAGE_KEYS_session = js ''app.session''"

text \<open>The \<open>try\<close> block of \<open>readUsers\<close>: an absent key or an empty text is falsy, a text
  that does not parse throws, a value that is not an array gives \<open>[]\<close>.\<close>

definition readUsers_try :: "host \<Rightarrow> storage \<Rightarrow> js_error + json list" where
  "readUsers_try H ls =
     (case ls STORAGE_KEYS_users of
        None \<Rightarrow> Inr []
      | Some raw \<Rightarrow>
          if raw = [] then Inr []
          else (case JSON_parse H raw of
                  None \<Rightarrow> Inl SyntaxError
                | Some (JArr xs) \<Rightarrow> Inr xs
                | Some v \<Rightarrow> Inr []))"

definition readUsers :: "host \<Rightarrow> storage \<Rightarrow> js_error + json list" where
  "readUsers H ls = (case readUsers_try H ls of Inl e \<Rightarrow> Inr [] | Inr xs \<Rightarrow> Inr xs)"

definition writeUsers :: "host \<Rightarrow> json list \<Rightarrow> storage \<Rightarrow> storage" where
  "writeUsers H users ls = ls(STORAGE_KEYS_users \<mapsto> JSON_stringify H (JArr users))"

definition readSession_try :: "host \<Rightarrow> storage \<Rightarrow> js_error + json" where
  "readSession_try H ls =
     (case ls STORAGE_KEYS_session of
        None \<Rightarrow> Inr JNull
      | Some raw \<Rightarrow>
          if raw = [] then Inr JNull
          else (case JSON_parse H raw of
                  None \<Rightarrow> Inl SyntaxError
                | Some v \<Rightarrow> Inr v))"

definition readSession :: "host \<Rightarrow> storage \<Rightarrow> js_error + json" where
  "readSession H ls = (case readSession_try H ls of Inl e \<Rightarrow> Inr JNull | Inr v \<Rightarrow> Inr v)"

definition writeSession :: "host \<Rightarrow> json \<Rightarrow> storage \<Rightarrow> storage" where
  "writeSession H session ls =
     (if \<not> truthy session then ls(STORAGE_KEYS_session := None)
      else ls(STORAGE_KEYS_session \<mapsto> JSON_stringify H session))"

definition ROUTES_account :: jstring where
  "ROUTES_account = js ''#/account''"

section \<open>Helpers\<close>

text \<open>\<open>validateEmail\<close>: the \<open>typeof\<close> test fails on everything but a string.\<close>

fun validateEmail :: "json \<Rightarrow> bool" where
  "validateEmail (JStr email) = (includes_js email (js ''@'') \<and> includes_js email (js ''.''))"
| "validateEmail v = False"

text \<open>\<open>safeTrim\<close> on a string: the empty string is falsy and is replaced by \<open>""\<close>,
  \<open>toString\<close> of a string is the string. Every call of the source passes the text of a
  form field.\<close>

definition safeTrim :: "jstring \<Rightarrow> jstring" where
  "safeTrim value = trim (if value = [] then [] else value)"

section \<open>Components\<close>

text \<open>What a submit handler leaves in the component: \<open>setError(msg)\<close> or
  \<open>setSuccess(msg)\<close>.\<close>

datatype notice = ErrorMsg jstring | SuccessMsg jstring

text \<open>What the login handler leaves: an error message, or the call \<open>onLogin(user)\<close>, which
  sets the session of \<open>App\<close> to \<open>{email: user.email}\<close>, followed by \<open>navigate(to)\<close>.\<close>

datatype login_result = LoginFailed jstring | LoggedIn json jstring

text \<open>The object literal \<open>{ name: fullName, email: eMail, password: pass }\<close>.\<close>

definition user_record :: "jstring \<Rightarrow> jstring \<Rightarrow> jstring \<Rightarrow> json" where
  "user_record fullName eMail pass =
     JObj [(js ''name'', JStr fullName), (js ''email'', JStr eMail), (js ''password'', JStr pass)]"

text \<open>The object literal \<open>{ email: v }\<close>; a property whose value is \<open>undefined\<close> is left
  out, as \<open>JSON.stringify\<close> leaves it out.\<close>

definition session_object :: "json option \<Rightarrow> json" where
  "session_object v = JObj (case v of None \<Rightarrow> [] | Some e \<Rightarrow> [(js ''email'', e)])"

text \<open>The callback of \<open>users.find\<close> in the login page:
  \<open>u.email === eMail && u.password === pass\<close>.\<close>

definition login_match :: "jstring \<Rightarrow> jstring \<Rightarrow> json \<Rightarrow> js_error + bool" where
  "login_match eMail pass u =
     (case get_prop u (js ''email'') of
        Inl e \<Rightarrow> Inl e
      | Inr a \<Rightarrow>
          if strict_eq a (Some (JStr eMail))
          then (case get_prop u (js ''password'') of
                  Inl e \<Rightarrow> Inl e
                | Inr b \<Rightarrow> Inr (strict_eq b (Some (JStr pass))))
          else Inr False)"

text \<open>The synchronous part of \<open>LoginPage.handleSubmit\<close>: a message, or the normalised
  email and password handed to the timer callback.\<close>

definition LoginPage_validate :: "host \<Rightarrow> jstring \<Rightarrow> jstring \<Rightarrow> jstring + (jstring \<times> jstring)" where
  "LoginPage_validate H email password =
     (let eMail = String_toLowerCase H (safeTrim email);
          pass = safeTrim password
      in if \<not> validateEmail (JStr eMail) then Inl (js ''Please enter a valid email.'')
         else if length pass < 4 then Inl (js ''Password must be at least 4 characters.'')
         else Inr (eMail, pass))"

text \<open>The timer callback, run on the storage as it is when the timer fires.\<close>

definition LoginPage_timeout ::
  "host \<Rightarrow> storage \<Rightarrow> jstring \<Rightarrow> jstring \<Rightarrow> js_error + (login_result \<times> storage)" where
  "LoginPage_timeout H ls eMail pass =
     (case readUsers H ls of
        Inl e \<Rightarrow> Inl e
      | Inr users \<Rightarrow>
          (case find_js (login_match eMail pass) users of
             Inl e \<Rightarrow> Inl e
           | Inr None \<Rightarrow> Inr (LoginFailed (js ''Invalid email or password.''), ls)
           | Inr (Some user) \<Rightarrow>
               (case get_prop user (js ''email'') of
                  Inl e \<Rightarrow> Inl e
                | Inr a \<Rightarrow>
                    Inr (LoggedIn (session_object a) ROUTES_account,
                         writeSession H (session_object a) ls))))"

text \<open>\<open>LoginPage.handleSubmit\<close> with its timer callback, nothing else touching the storage
  in between.\<close>

definition LoginPage_handleSubmit ::
  "host \<Rightarrow> storage \<Rightarrow> jstring \<Rightarrow> jstring \<Rightarrow> js_error + (login_result \<times> storage)" where
  "LoginPage_handleSubmit H ls email password =
     (case LoginPage_validate H email password of
        Inl msg \<Rightarrow> Inr (LoginFailed msg, ls)
      | Inr (eMail, pass) \<Rightarrow> LoginPage_timeout H ls eMail pass)"

text \<open>The callback of \<open>users.some\<close> in the register page: \<open>u.email === eMail\<close>.\<close>

definition email_is :: "jstring \<Rightarrow> json \<Rightarrow> js_error + bool" where
  "email_is eMail u =
     (case get_prop u (js ''email'') of
        Inl e \<Rightarrow> Inl e
      | Inr a \<Rightarrow> Inr (strict_eq a (Some (JStr eMail))))"

definition RegisterPage_handleSubmit ::
  "host \<Rightarrow> storage \<Rightarrow> jstring \<Rightarrow> jstring \<Rightarrow> jstring \<Rightarrow> jstring
     \<Rightarrow> js_error + (notice \<times> storage)" where
  "RegisterPage_handleSubmit H ls name email password confirm =
     (let fullName = safeTrim name;
          eMail = String_toLowerCase H (safeTrim email);
          pass = safeTrim password;
          conf = safeTrim confirm
      in if length fullName < 2 then Inr (ErrorMsg (js ''Name must be at least 2 characters.''), ls)
         else if \<not> validateEmail (JStr eMail) then Inr (ErrorMsg (js ''Please enter a valid email.''), ls)
         else if length pass < 4 then Inr (ErrorMsg (js ''Password must be at least 4 characters.''), ls)
         else if pass \<noteq> conf then Inr (ErrorMsg (js ''Passwords do not match.''), ls)
         else (case readUsers H ls of
                 Inl e \<Rightarrow> Inl e
               | Inr users \<Rightarrow>
                   (case some_js (email_is eMail) users of
                      Inl e \<Rightarrow> Inl e
                    | Inr dup \<Rightarrow>
                        if dup then Inr (ErrorMsg (js ''An account with this email already exists.''), ls)
                        else Inr (SuccessMsg (js ''Registration successful. You can now log in.''),
                                  writeUsers H (users @ [user_record fullName eMail pass]) ls))))"

text \<open>The callback of \<open>users.findIndex\<close> in the account page:
  \<open>u.email === session.email\<close>.\<close>

definition session_match :: "json \<Rightarrow> json \<Rightarrow> js_error + bool" where
  "session_match session u =
     (case get_prop u (js ''email'') of
        Inl e \<Rightarrow> Inl e
      | Inr a \<Rightarrow>
          (case get_prop session (js ''email'') of
             Inl e \<Rightarrow> Inl e
           | Inr b \<Rightarrow> Inr (strict_eq a b)))"

text \<open>The object literal \<open>{ ...u, name: fullName, password: pass }\<close>.\<close>

definition updated_record :: "json \<Rightarrow> jstring \<Rightarrow> jstring \<Rightarrow> json" where
  "updated_record u fullName pass =
     JObj (obj_set (js ''password'') (JStr pass) (obj_set (js ''name'') (JStr fullName) (spread u)))"

text \<open>\<open>AccountPage.handleSave\<close>, with the session of the page and the \<open>name\<close> and
  \<open>password\<close> fields of the edited profile.\<close>

definition AccountPage_handleSave ::
  "host \<Rightarrow> storage \<Rightarrow> json \<Rightarrow> jstring \<Rightarrow> jstring \<Rightarrow> js_error + (notice \<times> storage)" where
  "AccountPage_handleSave H ls session profile_name profile_password =
     (let fullName = safeTrim profile_name;
          pass = safeTrim profile_password
      in if length fullName < 2 then Inr (ErrorMsg (js ''Name must be at least 2 characters.''), ls)
         else if length pass < 4 then Inr (ErrorMsg (js ''Password must be at least 4 characters.''), ls)
         else (case readUsers H ls of
                 Inl e \<Rightarrow> Inl e
               | Inr users \<Rightarrow>
                   (case findIndex_js (session_match session) users of
                      Inl e \<Rightarrow> Inl e
                    | Inr None \<Rightarrow> Inr (ErrorMsg (js ''User not found.''), ls)
                    | Inr (Some idx) \<Rightarrow>
                        Inr (SuccessMsg (js ''Account updated.''),
                             writeUsers H (users[idx := updated_record (users ! idx) fullName pass]) ls))))"

section \<open>Round trip, stored records and reachable storage\<close>

text \<open>\<open>writeUsers(readUsers())\<close>.\<close>

definition roundtrip :: "host \<Rightarrow> storage \<Rightarrow> js_error + storage" where
  "roundtrip H ls =
     (case readUsers H ls of
        Inl e \<Rightarrow> Inl e
      | Inr users \<Rightarrow> Inr (writeUsers H users ls))"

text \<open>The value of \<open>u.k\<close> for a \<open>u\<close> that is not \<open>null\<close>, and the string it holds, if it
  holds one.\<close>

definition own_prop :: "json \<Rightarrow> jstring \<Rightarrow> json option" where
  "own_prop u k = (case u of JObj kvs \<Rightarrow> map_of kvs k | _ \<Rightarrow> None)"

definition str_prop :: "json \<Rightarrow> jstring \<Rightarrow> jstring option" where
  "str_prop u k = (case own_prop u k of Some (JStr s) \<Rightarrow> Some s | _ \<Rightarrow> None)"

text \<open>A normalised record: name and password are their own trimmed forms, of length at
  least 2 and 4, and the email is its own trimmed, lower-cased form.\<close>

definition normalized :: "host \<Rightarrow> json \<Rightarrow> bool" where
  "normalized H u \<longleftrightarrow>
     (case (str_prop u (js ''name''), str_prop u (js ''email''), str_prop u (js ''password'')) of
        (Some n, Some e, Some p) \<Rightarrow>
          trim n = n \<and> 2 \<le> length n \<and> trim p = p \<and> 4 \<le> length p \<and>
          String_toLowerCase H (trim e) = e
      | _ \<Rightarrow> False)"

text \<open>The host's lower-casing is stable on trimmed strings: trimming and lower-casing the
  lower case of a trimmed string gives that lower case again (as it does when the lower
  case of a trimmed string is trimmed and is its own lower case).\<close>

definition lower_stable :: "host \<Rightarrow> bool" where
  "lower_stable H \<longleftrightarrow>
     (\<forall>s. String_toLowerCase H (trim (String_toLowerCase H (trim s))) =
          String_toLowerCase H (trim s))"

text \<open>A string of white space only, as padding around a field.\<close>

definition all_ws :: "jstring \<Rightarrow> bool" where
  "all_ws s \<longleftrightarrow> list_all is_ws s"

text \<open>The host's JSON functions lose nothing of the stored user list: whatever list was
  serialised into the users record, parsing that text gives the list back.\<close>

definition reads_back :: "host \<Rightarrow> storage \<Rightarrow> bool" where
  "reads_back H ls \<longleftrightarrow>
     (\<forall>xs. ls STORAGE_KEYS_users = Some (JSON_stringify H (JArr xs)) \<longrightarrow>
        JSON_stringify H (JArr xs) \<noteq> [] \<and>
        JSON_parse H (JSON_stringify H (JArr xs)) = Some (JArr xs))"

text \<open>Storage populated through registration and profile updates only, starting without a
  users record.\<close>

inductive populated :: "host \<Rightarrow> storage \<Rightarrow> bool" for H :: host where
  fresh: "ls STORAGE_KEYS_users = None \<Longrightarrow> populated H ls"
| registered:
    "populated H ls \<Longrightarrow>
     RegisterPage_handleSubmit H ls name email password confirm = Inr (out, ls') \<Longrightarrow>
     reads_back H ls' \<Longrightarrow> populated H ls'"
| saved:
    "populated H ls \<Longrightarrow>
     AccountPage_handleSave H ls session profile_name profile_password = Inr (out, ls') \<Longrightarrow>
     reads_back H ls' \<Longrightarrow> populated H ls'"

subsection \<open>The scenario of the specification\<close>

definition jane :: json where
  "jane = user_record (js ''Jane Doe'') (js ''jane@x.com'') (js ''abcd'')"

definition jane_session :: json where
  "jane_session = JObj [(js ''email'', JStr (js ''jane@x.com''))]"

definition jane_roe :: json where
  "jane_roe = user_record (js ''Jane Roe'') (js ''jane@x.com'') (js ''wxyz'')"

definition users_text :: jstring where
  \<open>users_text = js ''[{"name":"Jane Doe","email":"jane@x.com","password":"abcd"}]''\<close>

definition roe_text :: jstring where
  \<open>roe_text = js ''[{"name":"Jane Roe","email":"jane@x.com","password":"wxyz"}]''\<close>

definition session_text :: jstring where
  \<open>session_text = js ''{"email":"jane@x.com"}''\<close>

text \<open>Lower case of one code unit below 256: \<open>A\<close> to \<open>Z\<close> and the Latin-1 capitals \<open>0xC0\<close>
  to \<open>0xDE\<close> (without the multiplication sign \<open>0xD7\<close>) move up by 32. On a string of such
  code units the host's \<open>toLowerCase\<close> is this map, unit by unit.\<close>

definition lower_unit :: "code_unit \<Rightarrow> code_unit" where
  "lower_unit c =
     (if (65 \<le> c \<and> c \<le> 90) \<or> (192 \<le> c \<and> c \<le> 222 \<and> c \<noteq> 215) then c + 32 else c)"

text \<open>The host on the texts and values of the scenario, all of code units below 256; no
  other text or value is used with it.\<close>

definition scenario_host :: host where
  "scenario_host =
     \<lparr> JSON_parse = (\<lambda>s. if s = js ''[]'' then Some (JArr [])
                        else if s = users_text then Some (JArr [jane])
                        else if s = roe_text then Some (JArr [jane_roe])
                        else if s = session_text then Some jane_session
                        else None),
       JSON_stringify = (\<lambda>v. if v = JArr [] then js ''[]''
                            else if v = JArr [jane] then users_text
                            else if v = JArr [jane_roe] then roe_text
                            else if v = jane_session then session_text
                            else js ''null''),
       String_toLowerCase = map lower_unit \<rparr>"

definition jane_storage :: storage where
  "jane_storage = [STORAGE_KEYS_users \<mapsto> users_text]"

definition roe_storage :: storage where
  "roe_storage = [STORAGE_KEYS_users \<mapsto> roe_text]"

subsection \<open>A Greek email\<close>

text \<open>The emails written with capital alpha and capital sigma (\<open>U+0391\<close>, \<open>U+03A3\<close>)
  before \<open>@X.COM\<close>, with small alpha and small sigma (\<open>U+03B1\<close>, \<open>U+03C3\<close>) before
  \<open>@x.com\<close>, and with small alpha and final small sigma (\<open>U+03B1\<close>, \<open>U+03C2\<close>) before
  \<open>@x.com\<close>. The host lower-cases the capitals to the spelling with the final sigma,
  since the sigma ends its word, and leaves the two lower-case spellings as they are.\<close>

definition sigma_capitals :: jstring where
  "sigma_capitals = [913, 931] @ js ''@X.COM''"

definition sigma_small :: jstring where
  "sigma_small = [945, 963] @ js ''@x.com''"

definition sigma_final :: jstring where
  "sigma_final = [945, 962] @ js ''@x.com''"

definition sigma_user :: json where
  "sigma_user = user_record (js ''Alpha Sigma'') sigma_final (js ''abcd'')"

definition sigma_user2 :: json where
  "sigma_user2 = user_record (js ''Alpha Sigma'') sigma_small (js ''abcd'')"

definition sigma_text :: jstring where
  \<open>sigma_text =
     js ''[{"name":"Alpha Sigma","email":"'' @ sigma_final @ js ''","password":"abcd"}]''\<close>

definition sigma_text2 :: jstring where
  \<open>sigma_text2 =
     js ''[{"name":"Alpha Sigma","email":"'' @ sigma_final @ js ''","password":"abcd"},'' @
     js ''{"name":"Alpha Sigma","email":"'' @ sigma_small @ js ''","password":"abcd"}]''\<close>

text \<open>The host on the texts and values of this example.\<close>

definition sigma_host :: host where
  "sigma_host =
     \<lparr> JSON_parse = (\<lambda>s. if s = js ''[]'' then Some (JArr [])
                        else if s = sigma_text then Some (JArr [sigma_user])
                        else if s = sigma_text2 then Some (JArr [sigma_user, sigma_user2])
                        else None),
       JSON_stringify = (\<lambda>v. if v = JArr [] then js ''[]''
                            else if v = JArr [sigma_user] then sigma_text
                            else if v = JArr [sigma_user, sigma_user2] then sigma_text2
                            else js ''null''),
       String_toLowerCase = (\<lambda>s. if s = sigma_capitals then sigma_final
                               else map lower_unit s) \<rparr>"

definition sigma_storage :: storage where
  "sigma_storage = [STORAGE_KEYS_users \<mapsto> sigma_text]"

definition sigma_storage2 :: storage where
  "sigma_storage2 = [STORAGE_KEYS_users \<mapsto> sigma_text2]"

text \<open>The small letter of one code unit of Basic Latin, Latin-1 or the Greek capitals
  \<open>U+0391\<close> to \<open>U+03AB\<close>, by itself (the simple case mapping): position does not matter.\<close>

definition small_letter :: "code_unit \<Rightarrow> code_unit" where
  "small_letter c = (if 913 \<le> c \<and> c \<le> 939 \<and> c \<noteq> 930 then c + 32 else lower_unit c)"

section \<open>Strings: literals and trimming\<close>

lemma js_eq_iff: "js a = js b \<longleftrightarrow> a = b"
proof -
  have "inj (of_char :: char \<Rightarrow> nat)" by (rule inj_of_char)
  then have "inj js" unfolding js_def [abs_def] by (rule inj_mapI)
  then show ?thesis by (simp add: inj_eq)
qed

lemma js_Nil_iff: "js a = [] \<longleftrightarrow> a = []" "[] = js a \<longleftrightarrow> a = []"
  by (auto simp: js_def)

lemma length_js: "length (js a) = length a"
  by (simp add: js_def)

lemmas js_simps = js_eq_iff js_Nil_iff length_js

lemma dropWhile_rev_dropWhile:
  "dropWhile is_ws (rev (dropWhile is_ws (rev (dropWhile is_ws s)))) = rev (dropWhile is_ws (rev (dropWhile is_ws s)))"
proof -
  define d where "d = dropWhile is_ws s"
  define e where "e = dropWhile is_ws (rev d)"
  have "dropWhile is_ws (rev e) = rev e"
  proof (cases "e = []")
    case True then show ?thesis by simp
  next
    case False
    have "set e \<subseteq> set (rev d)" unfolding e_def by (meson set_dropWhileD subsetI)
    then have ne: "d \<noteq> []" using False by auto
    have hd_d: "\<not> is_ws (hd d)" using ne unfolding d_def by (metis hd_dropWhile)
    obtain pre where "rev d = pre @ e" unfolding e_def by (metis takeWhile_dropWhile_id)
    then have "d = rev e @ rev pre" by (metis rev_append rev_rev_ident)
    then have "hd (rev e) = hd d" using False by (metis hd_append2 rev_is_Nil_conv)
    then have "\<not> is_ws (hd (rev e))" using hd_d by simp
    then show ?thesis using False by (cases "rev e") auto
  qed
  then show ?thesis unfolding e_def d_def .
qed

lemma trim_idem: "trim (trim s) = trim s"
  unfolding trim_def by (simp only: rev_rev_ident dropWhile_rev_dropWhile dropWhile_idem)

lemma trim_pad_left: "\<forall>c\<in>set l. is_ws c \<Longrightarrow> trim (l @ s) = trim s"
  by (simp add: trim_def dropWhile_append2)

lemma trim_pad_right:
  assumes "\<forall>c\<in>set r. is_ws c" shows "trim (s @ r) = trim s"
proof (cases "\<forall>c\<in>set s. is_ws c")
  case True
  then have "dropWhile is_ws (s @ r) = []" "dropWhile is_ws s = []" using assms by auto
  then show ?thesis by (simp only: trim_def)
next
  case False
  then obtain x where x: "x \<in> set s" "\<not> is_ws x" by auto
  then have "dropWhile is_ws (s @ r) = dropWhile is_ws s @ r" by (simp add: dropWhile_append1)
  moreover have "dropWhile is_ws (rev r @ t) = dropWhile is_ws t" for t
    by (rule dropWhile_append2) (use assms in auto)
  ultimately show ?thesis by (simp add: trim_def)
qed

lemma trim_padded: "all_ws l \<Longrightarrow> all_ws r \<Longrightarrow> trim (l @ s @ r) = trim s"
  by (simp add: all_ws_def list_all_iff trim_pad_left trim_pad_right)

lemma safeTrim_trim: "safeTrim s = trim s"
  by (simp add: safeTrim_def)

lemma safeTrim_padded: "all_ws l \<Longrightarrow> all_ws r \<Longrightarrow> safeTrim (l @ s @ r) = safeTrim s"
  by (simp add: safeTrim_trim trim_padded)

lemma includes_js_single: "includes_js s [c] \<longleftrightarrow> c \<in> set s"
  by (induction s) auto

lemma js_at_dot: "js ''@'' = [64]" "js ''.'' = [46]"
  by (simp_all add: js_def)

lemma validateEmail_units: "validateEmail (JStr s) \<longleftrightarrow> 64 \<in> set s \<and> 46 \<in> set s"
  by (simp add: js_at_dot includes_js_single)

subsection \<open>Lower case, unit by unit\<close>

lemma is_ws_lower_unit: "is_ws (lower_unit c) = is_ws c"
  by (auto simp: is_ws_def lower_unit_def)

lemma lower_unit_idem: "lower_unit (lower_unit c) = lower_unit c"
  by (auto simp: lower_unit_def)

lemma dropWhile_ws_lower:
  "dropWhile is_ws (map lower_unit s) = map lower_unit (dropWhile is_ws s)"
  by (induction s) (auto simp: is_ws_lower_unit)

lemma trim_map_lower: "trim (map lower_unit s) = map lower_unit (trim s)"
  by (simp add: trim_def dropWhile_ws_lower rev_map)

lemma map_lower_stable:
  "map lower_unit (trim (map lower_unit (trim s))) = map lower_unit (trim s)"
  by (simp add: trim_map_lower trim_idem lower_unit_idem)

section \<open>Property reads and array searches\<close>

lemma get_prop_own: "u \<noteq> JNull \<Longrightarrow> get_prop u k = Inr (own_prop u k)"
  by (cases u) (simp_all add: own_prop_def)

lemma strict_eq_str: "strict_eq a (Some (JStr s)) \<longleftrightarrow> a = Some (JStr s)"
  by (cases "(a, Some (JStr s))" rule: strict_eq.cases) auto

lemma email_is_own: "u \<noteq> JNull \<Longrightarrow> email_is e u = Inr (own_prop u (js ''email'') = Some (JStr e))"
  by (simp add: email_is_def get_prop_own strict_eq_str)

lemma email_is_False:
  "email_is e u = Inr False \<Longrightarrow> u \<noteq> JNull \<and> own_prop u (js ''email'') \<noteq> Some (JStr e)"
  by (cases u) (auto simp: email_is_def own_prop_def strict_eq_str split: sum.splits)

lemma login_match_own:
  "u \<noteq> JNull \<Longrightarrow> login_match e p u =
     Inr (own_prop u (js ''email'') = Some (JStr e) \<and> own_prop u (js ''password'') = Some (JStr p))"
  by (simp add: login_match_def get_prop_own strict_eq_str)

lemma session_match_own:
  "u \<noteq> JNull \<Longrightarrow> session \<noteq> JNull \<Longrightarrow>
   session_match session u = Inr (strict_eq (own_prop u (js ''email'')) (own_prop session (js ''email'')))"
  by (simp add: session_match_def get_prop_own)

lemma user_record_props:
  "own_prop (user_record n e p) (js ''name'') = Some (JStr n)"
  "own_prop (user_record n e p) (js ''email'') = Some (JStr e)"
  "own_prop (user_record n e p) (js ''password'') = Some (JStr p)"
  "user_record n e p \<noteq> JNull"
  by (simp_all add: user_record_def own_prop_def js_simps)

lemma map_of_obj_set: "map_of (obj_set k v kvs) = (map_of kvs)(k \<mapsto> v)"
  by (induction kvs) (auto simp: fun_eq_iff)


lemma own_prop_updated_record:
  "own_prop (updated_record u n p) (js ''name'') = Some (JStr n)"
  "own_prop (updated_record u n p) (js ''password'') = Some (JStr p)"
  by (simp_all add: updated_record_def own_prop_def map_of_obj_set js_simps)

lemma some_js_total:
  "\<forall>x\<in>set xs. p x = Inr (q x) \<Longrightarrow> some_js p xs = Inr (\<exists>x\<in>set xs. q x)"
  by (induction xs) auto

lemma some_js_false:
  "some_js p xs = Inr False \<Longrightarrow> \<forall>x\<in>set xs. p x = Inr False"
  by (induction xs) (auto split: sum.splits if_splits)

lemma some_js_append_hit:
  "\<forall>x\<in>set xs. p x = Inr False \<Longrightarrow> p y = Inr True \<Longrightarrow> some_js p (xs @ y # ys) = Inr True"
  by (induction xs) auto

lemma some_js_email_is:
  assumes "JNull \<notin> set users"
  shows "some_js (email_is e) users = Inr (\<exists>u\<in>set users. own_prop u (js ''email'') = Some (JStr e))"
proof -
  have "\<forall>u\<in>set users. u \<noteq> JNull" using assms by auto
  then have "\<forall>u\<in>set users. email_is e u = Inr (own_prop u (js ''email'') = Some (JStr e))"
    by (simp add: email_is_own)
  then show ?thesis by (rule some_js_total)
qed

lemma find_js_none:
  "\<forall>x\<in>set xs. p x = Inr False \<Longrightarrow> find_js p xs = Inr None"
  by (induction xs) auto

lemma find_js_append_hit:
  "\<forall>x\<in>set xs. p x = Inr False \<Longrightarrow> p y = Inr True \<Longrightarrow> find_js p (xs @ y # ys) = Inr (Some y)"
  by (induction xs) auto

lemma findIndex_js_none:
  "\<forall>x\<in>set xs. p x = Inr False \<Longrightarrow> findIndex_js p xs = Inr None"
  by (induction xs) auto


lemma findIndex_js_success:
  "findIndex_js p xs = Inr (Some i) \<Longrightarrow> i < length xs \<and> p (xs ! i) = Inr True"
proof (induction xs arbitrary: i)
  case Nil then show ?case by simp
next
  case (Cons x xs)
  then show ?case
    by (auto split: sum.splits if_splits option.splits)
qed

section \<open>Reading and writing the storage\<close>

lemma readUsers_total: "\<exists>xs. readUsers H ls = Inr xs"
  by (simp add: readUsers_def split: sum.splits)

lemma readSession_total: "\<exists>v. readSession H ls = Inr v"
  by (simp add: readSession_def split: sum.splits)

lemma readUsers_writeUsers:
  "reads_back H (writeUsers H xs ls) \<Longrightarrow> readUsers H (writeUsers H xs ls) = Inr xs"
  by (simp add: reads_back_def writeUsers_def readUsers_def readUsers_try_def)

lemma writeUsers_session_key: "writeUsers H users ls STORAGE_KEYS_session = ls STORAGE_KEYS_session"
  by (simp add: writeUsers_def STORAGE_KEYS_users_def STORAGE_KEYS_session_def js_simps)

lemma writeUsers_twice: "writeUsers H xs (writeUsers H xs ls) = writeUsers H xs ls"
  by (simp add: writeUsers_def)

section \<open>The handlers\<close>

lemma register_success:
  assumes "RegisterPage_handleSubmit H ls name email password confirm = Inr (SuccessMsg msg, ls')"
  obtains users where
    "readUsers H ls = Inr users"
    "some_js (email_is (String_toLowerCase H (safeTrim email))) users = Inr False"
    "2 \<le> length (safeTrim name)"
    "validateEmail (JStr (String_toLowerCase H (safeTrim email)))"
    "4 \<le> length (safeTrim password)"
    "safeTrim password = safeTrim confirm"
    "ls' = writeUsers H (users @ [user_record (safeTrim name) (String_toLowerCase H (safeTrim email))
                                   (safeTrim password)]) ls"
  using assms
  by (auto simp: RegisterPage_handleSubmit_def Let_def split: if_splits sum.splits)

lemma register_failure:
  assumes "RegisterPage_handleSubmit H ls name email password confirm = Inr (ErrorMsg msg, ls')"
  shows "ls' = ls"
  using assms
  by (auto simp: RegisterPage_handleSubmit_def Let_def split: if_splits sum.splits)

lemma save_success:
  assumes "AccountPage_handleSave H ls session name password = Inr (SuccessMsg msg, ls')"
  obtains users idx where
    "readUsers H ls = Inr users"
    "idx < length users"
    "2 \<le> length (safeTrim name)"
    "4 \<le> length (safeTrim password)"
    "ls' = writeUsers H (users[idx := updated_record (users ! idx) (safeTrim name) (safeTrim password)]) ls"
proof -
  from assms obtain users idx where
    a: "readUsers H ls = Inr users"
       "findIndex_js (session_match session) users = Inr (Some idx)"
       "2 \<le> length (safeTrim name)" "4 \<le> length (safeTrim password)"
       "ls' = writeUsers H (users[idx := updated_record (users ! idx) (safeTrim name) (safeTrim password)]) ls"
    by (auto simp: AccountPage_handleSave_def Let_def split: if_splits sum.splits option.splits)
  from findIndex_js_success [OF a(2)] have "idx < length users" by simp
  with a show thesis by (intro that)
qed

lemma save_failure:
  assumes "AccountPage_handleSave H ls session name password = Inr (ErrorMsg msg, ls')"
  shows "ls' = ls"
  using assms
  by (auto simp: AccountPage_handleSave_def Let_def split: if_splits sum.splits option.splits)

lemma normalized_user_record:
  assumes "lower_stable H" "2 \<le> length (safeTrim name)" "4 \<le> length (safeTrim password)"
  shows "normalized H (user_record (safeTrim name) (String_toLowerCase H (safeTrim email)) (safeTrim password))"
proof -
  have "String_toLowerCase H (trim (String_toLowerCase H (trim email))) =
        String_toLowerCase H (trim email)"
    using assms(1) by (simp add: lower_stable_def)
  with assms(2,3) show ?thesis
    by (simp add: normalized_def str_prop_def user_record_props safeTrim_trim trim_idem)
qed

lemma normalized_updated_record:
  assumes u: "normalized H u"
    and "2 \<le> length (safeTrim name)" "4 \<le> length (safeTrim password)"
  shows "normalized H (updated_record u (safeTrim name) (safeTrim password))"
proof -
  from u obtain e where e: "str_prop u (js ''email'') = Some e" "String_toLowerCase H (trim e) = e"
    by (auto simp: normalized_def split: option.splits)
  from e(1) obtain kvs where kvs: "u = JObj kvs"
    by (cases u) (simp_all add: str_prop_def own_prop_def)
  have "str_prop (updated_record u (safeTrim name) (safeTrim password)) (js ''email'') = Some e"
    using e(1) by (simp add: kvs str_prop_def own_prop_def updated_record_def map_of_obj_set js_simps)
  with assms(2,3) e(2) show ?thesis
    by (simp add: normalized_def str_prop_def own_prop_updated_record safeTrim_trim trim_idem)
qed

lemma populated_invariant:
  assumes stable: "lower_stable H" and "populated H ls"
  shows "\<exists>users. readUsers H ls = Inr users \<and> (\<forall>u\<in>set users. normalized H u)"
  using assms(2)
proof (induction rule: populated.induct)
  case (fresh ls)
  then have "readUsers H ls = Inr []"
    by (simp add: readUsers_def readUsers_try_def)
  then show ?case by simp
next
  case (registered ls name email password confirm out ls')
  from registered.IH obtain users where
    users: "readUsers H ls = Inr users" and inv: "\<forall>u\<in>set users. normalized H u"
    by blast
  show ?case
  proof (cases out)
    case (ErrorMsg msg)
    with registered.hyps(2) have "ls' = ls" by (simp add: register_failure)
    with users inv show ?thesis by blast
  next
    case (SuccessMsg msg)
    with registered.hyps(2)
    have reg: "RegisterPage_handleSubmit H ls name email password confirm = Inr (SuccessMsg msg, ls')"
      by simp
    let ?r = "user_record (safeTrim name) (String_toLowerCase H (safeTrim email)) (safeTrim password)"
    obtain users0 where
      users0: "readUsers H ls = Inr users0"
      and fresh: "some_js (email_is (String_toLowerCase H (safeTrim email))) users0 = Inr False"
      and name: "2 \<le> length (safeTrim name)"
      and valid: "validateEmail (JStr (String_toLowerCase H (safeTrim email)))"
      and password: "4 \<le> length (safeTrim password)"
      and confirm: "safeTrim password = safeTrim confirm"
      and ls': "ls' = writeUsers H (users0 @ [?r]) ls"
      by (rule register_success [OF reg])
    from users users0 have same: "users0 = users" by simp
    have read: "readUsers H ls' = Inr (users @ [?r])"
      using registered.hyps(3) unfolding ls' same by (rule readUsers_writeUsers)
    have "normalized H ?r" using stable name password by (rule normalized_user_record)
    with inv have "\<forall>u\<in>set (users @ [?r]). normalized H u" by simp
    with read show ?thesis by blast
  qed
next
  case (saved ls session name password out ls')
  from saved.IH obtain users where
    users: "readUsers H ls = Inr users" and inv: "\<forall>u\<in>set users. normalized H u"
    by blast
  show ?case
  proof (cases out)
    case (ErrorMsg msg)
    with saved.hyps(2) have "ls' = ls" by (simp add: save_failure)
    with users inv show ?thesis by blast
  next
    case (SuccessMsg msg)
    with saved.hyps(2)
    have save: "AccountPage_handleSave H ls session name password = Inr (SuccessMsg msg, ls')"
      by simp
    obtain users0 idx where
      users0: "readUsers H ls = Inr users0"
      and idx: "idx < length users0"
      and name: "2 \<le> length (safeTrim name)"
      and password: "4 \<le> length (safeTrim password)"
      and ls': "ls' = writeUsers H (users0[idx := updated_record (users0 ! idx) (safeTrim name) (safeTrim password)]) ls"
      by (rule save_success [OF save])
    from users users0 have same: "users0 = users" by simp
    let ?r = "updated_record (users ! idx) (safeTrim name) (safeTrim password)"
    have read: "readUsers H ls' = Inr (users[idx := ?r])"
      using saved.hyps(3) unfolding ls' same by (rule readUsers_writeUsers)
    have "normalized H (users ! idx)" using inv idx same by simp
    then have "normalized H ?r" using name password by (rule normalized_updated_record)
    with inv have "\<forall>u\<in>set (users[idx := ?r]). normalized H u"
      by (auto dest: set_update_subset_insert [THEN subsetD])
    with read show ?thesis by blast
  qed
qed

section \<open>Facts of the scenario\<close>

lemma safeTrim_samples:
  "safeTrim (js ''J'') = js ''J''" "safeTrim (js ''Jane Doe'') = js ''Jane Doe''" "safeTrim (js ''abc'') = js ''abc''"
  "safeTrim (js ''abcd'') = js ''abcd''" "safeTrim (js '' abcd '') = js ''abcd''"
  "safeTrim (js '' Jane Roe '') = js ''Jane Roe''" "safeTrim (js ''wxyz '') = js ''wxyz''"
  by (simp_all add: safeTrim_def trim_def is_ws_def lower_unit_def scenario_host_def js_def)

lemma normalise_samples:
  "safeTrim (js ''Bob Roe'') = js ''Bob Roe''" "safeTrim (js ''abce'') = js ''abce''" "safeTrim (js ''wxyz'') = js ''wxyz''"
  "String_toLowerCase scenario_host (safeTrim (js ''janex.com'')) = js ''janex.com''"
  "String_toLowerCase scenario_host (safeTrim (js ''jane@x.com'')) = js ''jane@x.com''"
  "String_toLowerCase scenario_host (safeTrim (js '' JANE@x.com '')) = js ''jane@x.com''"
  "String_toLowerCase scenario_host (safeTrim (js ''JANE@X.COM'')) = js ''jane@x.com''"
  "String_toLowerCase scenario_host (safeTrim (js ''bob@x.com'')) = js ''bob@x.com''"
  "String_toLowerCase scenario_host (safeTrim (js ''bob'')) = js ''bob''"
  by (simp_all add: safeTrim_def trim_def is_ws_def lower_unit_def scenario_host_def js_def)

lemma validateEmail_samples:
  "validateEmail (JStr (js ''jane@x.com''))" "validateEmail (JStr (js ''bob@x.com''))"
  "\<not> validateEmail (JStr (js ''janex.com''))" "\<not> validateEmail (JStr (js ''bob''))"
  by (simp_all add: validateEmail_units js_def)

lemma form_samples: "all_ws []" "all_ws (js '' '')"
  by (simp_all add: all_ws_def is_ws_def js_def)

lemma js_space_abcd: "js '' '' @ js ''abcd'' @ js '' '' = js '' abcd ''"
  by (simp add: js_def)

lemma lower_stable_scenario: "lower_stable scenario_host"
  by (simp add: lower_stable_def scenario_host_def map_lower_stable)

lemma jane_neq_roe: "jane \<noteq> jane_roe"
  by (simp add: jane_def jane_roe_def user_record_def js_simps)

lemma stringify_scenario_users:
  "JSON_stringify scenario_host (JArr xs) =
     (if xs = [] then js ''[]'' else if xs = [jane] then users_text
      else if xs = [jane_roe] then roe_text else js ''null'')"
  by (simp add: scenario_host_def jane_session_def)

lemma users_text_neq:
  "users_text \<noteq> (js ''[]'')" "users_text \<noteq> []" "users_text \<noteq> (js ''null'')" "users_text \<noteq> roe_text"
  "roe_text \<noteq> (js ''[]'')" "roe_text \<noteq> []" "roe_text \<noteq> (js ''null'')" "roe_text \<noteq> users_text"
  by (simp_all add: users_text_def roe_text_def js_simps)

lemma parse_users_text:
  "JSON_parse scenario_host users_text = Some (JArr [jane])"
  "JSON_parse scenario_host roe_text = Some (JArr [jane_roe])"
  by (simp_all add: scenario_host_def users_text_neq)

lemma scenario_parse_junk: "JSON_parse scenario_host (js ''{not json'') = None"
  by (simp add: scenario_host_def users_text_def roe_text_def session_text_def js_simps)

lemma scenario_parse_session: "JSON_parse scenario_host session_text = Some jane_session"
  by (simp add: scenario_host_def users_text_def roe_text_def session_text_def js_simps)

lemma stringify_jane_session: "JSON_stringify scenario_host jane_session = session_text"
  by (simp add: scenario_host_def jane_session_def jane_def jane_roe_def user_record_def)

lemma readUsers_empty: "readUsers scenario_host Map.empty = Inr []"
  by (simp add: readUsers_def readUsers_try_def)

lemma readUsers_jane: "readUsers scenario_host jane_storage = Inr [jane]"
  by (simp add: readUsers_def readUsers_try_def jane_storage_def users_text_neq parse_users_text)

lemma readUsers_roe: "readUsers scenario_host roe_storage = Inr [jane_roe]"
  by (simp add: readUsers_def readUsers_try_def roe_storage_def users_text_neq parse_users_text)

lemma writeUsers_scenario:
  "writeUsers scenario_host [] Map.empty = [STORAGE_KEYS_users \<mapsto> (js ''[]'')]"
  "writeUsers scenario_host [jane] jane_storage = jane_storage"
  by (simp_all add: writeUsers_def stringify_scenario_users jane_storage_def)

lemma updated_jane: "updated_record jane (js ''Jane Roe'') (js ''wxyz'') = jane_roe"
  by (simp add: updated_record_def jane_def jane_roe_def user_record_def js_simps)

lemma writeUsers_roe: "writeUsers scenario_host [jane_roe] jane_storage = roe_storage"
  by (simp add: writeUsers_def stringify_scenario_users jane_neq_roe [symmetric] jane_storage_def
        roe_storage_def)

lemma reads_back_empty_list: "reads_back scenario_host [STORAGE_KEYS_users \<mapsto> (js ''[]'')]"
  unfolding reads_back_def
proof (intro allI impI)
  fix xs
  assume "[STORAGE_KEYS_users \<mapsto> (js ''[]'')] STORAGE_KEYS_users =
            Some (JSON_stringify scenario_host (JArr xs))"
  then have eq: "(js ''[]'') = JSON_stringify scenario_host (JArr xs)"
    by simp
  have xs: "xs = []"
  proof (rule ccontr)
    assume "xs \<noteq> []"
    with eq have "(js ''[]'') = users_text \<or> (js ''[]'') = roe_text \<or> (js ''[]'') = js ''null''"
      by (simp add: stringify_scenario_users split: if_splits)
    with users_text_neq show False by (auto simp: js_simps)
  qed
  show "JSON_stringify scenario_host (JArr xs) \<noteq> [] \<and>
        JSON_parse scenario_host (JSON_stringify scenario_host (JArr xs)) = Some (JArr xs)"
    by (simp add: xs scenario_host_def js_simps)
qed

lemma reads_back_jane: "reads_back scenario_host jane_storage"
  unfolding reads_back_def
proof (intro allI impI)
  fix xs
  assume "jane_storage STORAGE_KEYS_users = Some (JSON_stringify scenario_host (JArr xs))"
  then have eq: "users_text = JSON_stringify scenario_host (JArr xs)"
    by (simp add: jane_storage_def)
  have xs: "xs = [jane]"
  proof (rule ccontr)
    assume "xs \<noteq> [jane]"
    with eq have "users_text = (js ''[]'') \<or> users_text = roe_text \<or> users_text = js ''null''"
      by (simp add: stringify_scenario_users split: if_splits)
    with users_text_neq show False by blast
  qed
  show "JSON_stringify scenario_host (JArr xs) \<noteq> [] \<and>
        JSON_parse scenario_host (JSON_stringify scenario_host (JArr xs)) = Some (JArr xs)"
    by (simp add: stringify_scenario_users xs users_text_neq parse_users_text jane_def user_record_def)
qed

lemma reads_back_roe: "reads_back scenario_host roe_storage"
  unfolding reads_back_def
proof (intro allI impI)
  fix xs
  assume "roe_storage STORAGE_KEYS_users = Some (JSON_stringify scenario_host (JArr xs))"
  then have eq: "roe_text = JSON_stringify scenario_host (JArr xs)"
    by (simp add: roe_storage_def)
  have xs: "xs = [jane_roe]"
  proof (rule ccontr)
    assume "xs \<noteq> [jane_roe]"
    with eq have "roe_text = (js ''[]'') \<or> roe_text = users_text \<or> roe_text = js ''null''"
      by (simp add: stringify_scenario_users split: if_splits)
    with users_text_neq show False by blast
  qed
  show "JSON_stringify scenario_host (JArr xs) \<noteq> [] \<and>
        JSON_parse scenario_host (JSON_stringify scenario_host (JArr xs)) = Some (JArr xs)"
    by (simp add: stringify_scenario_users xs users_text_neq parse_users_text jane_neq_roe [symmetric]
          jane_roe_def user_record_def)
qed

lemma register_jane:
  "RegisterPage_handleSubmit scenario_host Map.empty (js ''Jane Doe'') (js ''jane@x.com'') (js ''abcd'') (js ''abcd'') =
     Inr (SuccessMsg (js ''Registration successful. You can now log in.''), jane_storage)"
  by (simp add: RegisterPage_handleSubmit_def Let_def safeTrim_samples normalise_samples
        validateEmail_samples readUsers_empty writeUsers_def stringify_scenario_users
        jane_storage_def jane_def js_simps del: validateEmail.simps)

lemma register_short_name:
  "RegisterPage_handleSubmit scenario_host jane_storage (js ''J'') (js ''jane@x.com'') (js ''abcd'') (js ''abcd'') =
     Inr (ErrorMsg (js ''Name must be at least 2 characters.''), jane_storage)"
  by (simp add: RegisterPage_handleSubmit_def Let_def safeTrim_samples js_simps)

lemma save_jane:
  "AccountPage_handleSave scenario_host jane_storage jane_session (js '' Jane Roe '') (js ''wxyz '') =
     Inr (SuccessMsg (js ''Account updated.''), roe_storage)"
proof -
  have "findIndex_js (session_match jane_session) [jane] = Inr (Some 0)"
    by (simp add: session_match_def jane_session_def jane_def user_record_def js_simps)
  then show ?thesis
    by (simp add: AccountPage_handleSave_def Let_def safeTrim_samples readUsers_jane updated_jane
          writeUsers_roe js_simps)
qed

lemma populated_roe: "populated scenario_host roe_storage"
proof -
  have "populated scenario_host Map.empty" by (rule populated.fresh) simp
  then have "populated scenario_host jane_storage"
    using register_jane reads_back_jane by (rule populated.registered)
  then show ?thesis
    using save_jane reads_back_roe by (rule populated.saved)
qed

section \<open>Facts of the Greek email\<close>

lemma sigma_lower:
  "String_toLowerCase sigma_host (safeTrim sigma_capitals) = sigma_final"
  "String_toLowerCase sigma_host (safeTrim sigma_small) = sigma_small"
  by (simp_all add: sigma_host_def sigma_capitals_def sigma_small_def sigma_final_def
        safeTrim_def trim_def is_ws_def lower_unit_def js_def)

lemma sigma_small_letters: "map small_letter sigma_capitals = sigma_small"
  by (simp add: sigma_capitals_def sigma_small_def small_letter_def lower_unit_def js_def)

lemma sigma_samples:
  "safeTrim (js ''Alpha Sigma'') = js ''Alpha Sigma''"
  "validateEmail (JStr sigma_final)" "validateEmail (JStr sigma_small)"
  "sigma_final \<noteq> sigma_small" "sigma_small \<noteq> sigma_final"
  by (simp_all add: safeTrim_def trim_def is_ws_def validateEmail_units sigma_final_def
        sigma_small_def js_def)

lemma sigma_users_neq: "[sigma_user, sigma_user2] \<noteq> [sigma_user]"
  by simp

lemma sigma_text_neq:
  "sigma_text \<noteq> js ''[]''" "sigma_text \<noteq> []" "sigma_text2 \<noteq> js ''[]''" "sigma_text2 \<noteq> []"
  "sigma_text2 \<noteq> sigma_text"
  by (simp_all add: sigma_text_def sigma_text2_def sigma_final_def sigma_small_def js_def)

lemma stringify_sigma:
  "JSON_stringify sigma_host (JArr [sigma_user]) = sigma_text"
  "JSON_stringify sigma_host (JArr [sigma_user, sigma_user2]) = sigma_text2"
  by (simp_all add: sigma_host_def)

lemma parse_sigma:
  "JSON_parse sigma_host sigma_text = Some (JArr [sigma_user])"
  "JSON_parse sigma_host sigma_text2 = Some (JArr [sigma_user, sigma_user2])"
  by (simp_all add: sigma_host_def sigma_text_neq)

lemma readUsers_sigma:
  "readUsers sigma_host Map.empty = Inr []"
  "readUsers sigma_host sigma_storage = Inr [sigma_user]"
  "readUsers sigma_host sigma_storage2 = Inr [sigma_user, sigma_user2]"
  by (simp_all add: readUsers_def readUsers_try_def sigma_storage_def sigma_storage2_def
        sigma_text_neq parse_sigma)

lemma writeUsers_sigma:
  "writeUsers sigma_host [sigma_user] Map.empty = sigma_storage"
  "writeUsers sigma_host [sigma_user, sigma_user2] sigma_storage = sigma_storage2"
  by (simp_all add: writeUsers_def stringify_sigma sigma_storage_def sigma_storage2_def)

lemma register_sigma:
  "RegisterPage_handleSubmit sigma_host Map.empty (js ''Alpha Sigma'') sigma_capitals
       (js ''abcd'') (js ''abcd'') =
     Inr (SuccessMsg (js ''Registration successful. You can now log in.''), sigma_storage)"
  by (simp add: RegisterPage_handleSubmit_def Let_def safeTrim_samples sigma_samples sigma_lower
        readUsers_sigma writeUsers_sigma sigma_user_def [symmetric] js_simps
        del: validateEmail.simps)

lemma sigma_user_email: "own_prop sigma_user (js ''email'') = Some (JStr sigma_final)"
  by (simp add: sigma_user_def user_record_props)

lemma login_sigma_small:
  "LoginPage_handleSubmit sigma_host sigma_storage sigma_small (js ''abcd'') =
     Inr (LoginFailed (js ''Invalid email or password.''), sigma_storage)"
proof -
  have "login_match sigma_small (js ''abcd'') sigma_user = Inr False"
    by (simp add: login_match_own sigma_user_def user_record_props sigma_samples)
  then have "find_js (login_match sigma_small (js ''abcd'')) [sigma_user] = Inr None"
    by simp
  then show ?thesis
    by (simp add: LoginPage_handleSubmit_def LoginPage_validate_def LoginPage_timeout_def Let_def
          safeTrim_samples sigma_samples sigma_lower readUsers_sigma js_simps
          del: validateEmail.simps)
qed

lemma register_sigma_small:
  "RegisterPage_handleSubmit sigma_host sigma_storage (js ''Alpha Sigma'') sigma_small
       (js ''abcd'') (js ''abcd'') =
     Inr (SuccessMsg (js ''Registration successful. You can now log in.''), sigma_storage2)"
proof -
  have "email_is sigma_small sigma_user = Inr False"
    by (simp add: email_is_own sigma_user_def user_record_props sigma_samples)
  then have "some_js (email_is sigma_small) [sigma_user] = Inr False"
    by simp
  then show ?thesis
    by (simp add: RegisterPage_handleSubmit_def Let_def safeTrim_samples sigma_samples sigma_lower
          readUsers_sigma writeUsers_sigma sigma_user2_def [symmetric] js_simps
          del: validateEmail.simps)
qed

lemma lower_unit_not_capital_X: "lower_unit c \<noteq> 88"
  by (auto simp: lower_unit_def)

lemma map_lower_not_sigma_capitals: "map lower_unit t \<noteq> sigma_capitals"
proof
  assume "map lower_unit t = sigma_capitals"
  then have "88 \<in> set (map lower_unit t)"
    by (simp add: sigma_capitals_def js_def)
  then show False using lower_unit_not_capital_X by auto
qed

lemma sigma_final_fixed:
  "trim sigma_final = sigma_final" "map lower_unit sigma_final = sigma_final"
  "sigma_final \<noteq> sigma_capitals"
  by (simp_all add: sigma_final_def sigma_capitals_def trim_def is_ws_def lower_unit_def js_def)

lemma lower_stable_sigma: "lower_stable sigma_host"
  unfolding lower_stable_def
proof
  fix s
  let ?L = "String_toLowerCase sigma_host"
  have L: "?L t = (if t = sigma_capitals then sigma_final else map lower_unit t)" for t
    by (simp add: sigma_host_def)
  show "?L (trim (?L (trim s))) = ?L (trim s)"
  proof (cases "trim s = sigma_capitals")
    case True
    then show ?thesis by (simp add: L sigma_final_fixed)
  next
    case False
    then have "?L (trim s) = map lower_unit (trim s)" by (simp add: L)
    moreover have "trim (map lower_unit (trim s)) = map lower_unit (trim s)"
      by (simp add: trim_map_lower trim_idem)
    moreover have "?L (map lower_unit (trim s)) = map lower_unit (map lower_unit (trim s))"
      by (simp only: L map_lower_not_sigma_capitals if_False)
    ultimately show ?thesis by (simp add: lower_unit_idem)
  qed
qed

lemma stringify_sigma_users:
  "JSON_stringify sigma_host (JArr xs) =
     (if xs = [] then js ''[]'' else if xs = [sigma_user] then sigma_text
      else if xs = [sigma_user, sigma_user2] then sigma_text2 else js ''null'')"
  by (simp add: sigma_host_def)

lemma sigma_text_not_null: "sigma_text \<noteq> js ''null''"
  by (simp add: sigma_text_def js_def)

lemma reads_back_sigma: "reads_back sigma_host sigma_storage"
  unfolding reads_back_def
proof (intro allI impI)
  fix xs
  assume "sigma_storage STORAGE_KEYS_users = Some (JSON_stringify sigma_host (JArr xs))"
  then have eq: "sigma_text = JSON_stringify sigma_host (JArr xs)"
    by (simp add: sigma_storage_def)
  have xs: "xs = [sigma_user]"
  proof (rule ccontr)
    assume "xs \<noteq> [sigma_user]"
    with eq have "sigma_text = js ''[]'' \<or> sigma_text = sigma_text2 \<or> sigma_text = js ''null''"
      by (simp add: stringify_sigma_users split: if_splits)
    with sigma_text_neq sigma_text_not_null show False by metis
  qed
  show "JSON_stringify sigma_host (JArr xs) \<noteq> [] \<and>
        JSON_parse sigma_host (JSON_stringify sigma_host (JArr xs)) = Some (JArr xs)"
    by (simp add: xs stringify_sigma parse_sigma sigma_text_neq)
qed

lemma populated_sigma: "populated sigma_host sigma_storage"
proof -
  have "populated sigma_host Map.empty" by (rule populated.fresh) simp
  then show ?thesis
    using register_sigma reads_back_sigma by (rule populated.registered)
qed

section \<open>Claims\<close>

text \<open>C1, as amended: after a registration that succeeds, a login succeeds with any form of
  the email that, stripped of white-space padding, has the lower-cased trimmed value of the
  registered email (the registered email itself under any padding, or \<open>JANE@X.COM\<close> for
  \<open>jane@x.com\<close>), and with any white-space-padded form of the password: it finds the
  record, hands \<open>{email: e}\<close> with the stored lower-cased email \<open>e\<close> to \<open>onLogin\<close>, writes it as
  the session record and navigates to the account route. The claim as stated, for every
  case-varied form of the email, fails: the host lower-cases capital alpha, capital sigma
  to small alpha, final small sigma, so after registering that email in capitals the
  login with small alpha, small sigma is refused.\<close>

theorem register_then_login:
  assumes reg: "RegisterPage_handleSubmit H ls name email password confirm = Inr (SuccessMsg msg, ls')"
    and codec: "reads_back H ls'"
    and email_form: "all_ws l1" "all_ws r1"
      "String_toLowerCase H (safeTrim v) = String_toLowerCase H (safeTrim email)"
    and password_form: "all_ws l2" "all_ws r2"
  shows "LoginPage_handleSubmit H ls' (l1 @ v @ r1) (l2 @ password @ r2) =
           Inr (LoggedIn (JObj [(js ''email'', JStr (String_toLowerCase H (safeTrim email)))])
                  ROUTES_account,
                ls'(STORAGE_KEYS_session \<mapsto>
                      JSON_stringify H
                        (JObj [(js ''email'', JStr (String_toLowerCase H (safeTrim email)))])))"
proof -
  let ?e = "String_toLowerCase H (safeTrim email)" and ?p = "safeTrim password"
  let ?r = "user_record (safeTrim name) ?e ?p"
  obtain users where
    users: "readUsers H ls = Inr users"
    and fresh: "some_js (email_is ?e) users = Inr False"
    and name: "2 \<le> length (safeTrim name)"
    and valid: "validateEmail (JStr ?e)" "4 \<le> length ?p"
    and confirm: "safeTrim password = safeTrim confirm"
    and ls': "ls' = writeUsers H (users @ [?r]) ls"
    by (rule register_success [OF reg])
  have "safeTrim (l1 @ v @ r1) = safeTrim v"
    using email_form(1,2) by (rule safeTrim_padded)
  then have e: "String_toLowerCase H (safeTrim (l1 @ v @ r1)) = ?e"
    using email_form(3) by simp
  have p: "safeTrim (l2 @ password @ r2) = ?p"
    using password_form by (rule safeTrim_padded)
  have "\<forall>u\<in>set users. u \<noteq> JNull \<and> own_prop u (js ''email'') \<noteq> Some (JStr ?e)"
    using some_js_false [OF fresh] email_is_False by blast
  then have miss: "\<forall>u\<in>set users. login_match ?e ?p u = Inr False"
    by (simp add: login_match_own)
  have hit: "login_match ?e ?p ?r = Inr True"
    by (simp add: login_match_own user_record_props)
  have found: "find_js (login_match ?e ?p) (users @ [?r]) = Inr (Some ?r)"
    using find_js_append_hit [OF miss hit, of "[]"] by simp
  have read: "readUsers H ls' = Inr (users @ [?r])"
    using codec unfolding ls' by (rule readUsers_writeUsers)
  have "LoginPage_validate H (l1 @ v @ r1) (l2 @ password @ r2) = Inr (?e, ?p)"
    using valid by (simp add: LoginPage_validate_def Let_def e p del: validateEmail.simps)
  moreover have "LoginPage_timeout H ls' ?e ?p =
      Inr (LoggedIn (JObj [(js ''email'', JStr ?e)]) ROUTES_account,
           ls'(STORAGE_KEYS_session \<mapsto> JSON_stringify H (JObj [(js ''email'', JStr ?e)])))"
    by (simp add: LoginPage_timeout_def read found get_prop_own user_record_props
          session_object_def writeSession_def)
  ultimately show ?thesis by (simp add: LoginPage_handleSubmit_def)
qed

theorem register_then_login_witness:
  "RegisterPage_handleSubmit scenario_host Map.empty (js ''Jane Doe'') (js ''jane@x.com'')
       (js ''abcd'') (js ''abcd'') =
     Inr (SuccessMsg (js ''Registration successful. You can now log in.''), jane_storage) \<and>
   LoginPage_handleSubmit scenario_host jane_storage (js ''JANE@X.COM'') (js '' abcd '') =
     Inr (LoggedIn jane_session ROUTES_account,
          jane_storage(STORAGE_KEYS_session \<mapsto> session_text))"
  using register_then_login [OF register_jane reads_back_jane, of "[]" "[]" "js ''JANE@X.COM''"
      "js '' ''" "js '' ''"]
  using stringify_jane_session js_space_abcd
  by (simp add: register_jane form_samples normalise_samples jane_session_def)

theorem register_then_login_counterexample:
  "RegisterPage_handleSubmit sigma_host Map.empty (js ''Alpha Sigma'') sigma_capitals
       (js ''abcd'') (js ''abcd'') =
     Inr (SuccessMsg (js ''Registration successful. You can now log in.''), sigma_storage) \<and>
   readUsers sigma_host sigma_storage = Inr [sigma_user] \<and>
   own_prop sigma_user (js ''email'') = Some (JStr sigma_final) \<and>
   map small_letter sigma_capitals = sigma_small \<and>
   LoginPage_handleSubmit sigma_host sigma_storage sigma_small (js ''abcd'') =
     Inr (LoginFailed (js ''Invalid email or password.''), sigma_storage)"
  by (simp add: register_sigma readUsers_sigma sigma_user_email sigma_small_letters
        login_sigma_small)

text \<open>C2, as amended: a login attempt whose normalised email and trimmed password match no
  stored record never writes a session and leaves the storage as it is; it reports
  "Please enter a valid email." when the normalised email fails \<open>validateEmail\<close>,
  else "Password must be at least 4 characters." when the trimmed password is shorter than
  4, and "Invalid email or password." otherwise. The claim as stated fails on the
  attempt \<open>bob\<close>, \<open>abcd\<close>, which matches no record and reports the email message.\<close>

theorem login_no_match:
  assumes users: "readUsers H ls = Inr users" and wf: "JNull \<notin> set users"
    and no_match:
      "\<forall>u\<in>set users. \<not> (own_prop u (js ''email'') = Some (JStr (String_toLowerCase H (safeTrim email))) \<and>
                           own_prop u (js ''password'') = Some (JStr (safeTrim password)))"
  shows "LoginPage_handleSubmit H ls email password =
           Inr (LoginFailed
                  (if \<not> validateEmail (JStr (String_toLowerCase H (safeTrim email)))
                   then js ''Please enter a valid email.''
                   else if length (safeTrim password) < 4
                   then js ''Password must be at least 4 characters.''
                   else js ''Invalid email or password.''),
                ls)"
proof -
  have "\<forall>u\<in>set users. u \<noteq> JNull" using wf by auto
  with no_match
  have "\<forall>u\<in>set users. login_match (String_toLowerCase H (safeTrim email)) (safeTrim password) u = Inr False"
    by (simp add: login_match_own)
  then have "find_js (login_match (String_toLowerCase H (safeTrim email)) (safeTrim password)) users = Inr None"
    by (rule find_js_none)
  with users show ?thesis
    by (simp add: LoginPage_handleSubmit_def LoginPage_validate_def LoginPage_timeout_def Let_def)
qed

theorem login_no_match_witness:
  "LoginPage_handleSubmit scenario_host jane_storage (js ''jane@x.com'') (js ''wxyz'') =
     Inr (LoginFailed (js ''Invalid email or password.''), jane_storage)"
proof -
  have wf: "JNull \<notin> set [jane]" by (simp add: jane_def user_record_def)
  show ?thesis
    using login_no_match [OF readUsers_jane wf, where email = "js ''jane@x.com''" and password = "js ''wxyz''"]
    by (simp add: normalise_samples safeTrim_samples validateEmail_samples jane_def user_record_def
          own_prop_def js_simps del: validateEmail.simps)
qed

theorem login_message_counterexample:
  "readUsers scenario_host jane_storage = Inr [jane] \<and>
   own_prop jane (js ''email'') \<noteq> Some (JStr (String_toLowerCase scenario_host (safeTrim (js ''bob'')))) \<and>
   LoginPage_handleSubmit scenario_host jane_storage (js ''bob'') (js ''abcd'') =
     Inr (LoginFailed (js ''Please enter a valid email.''), jane_storage) \<and>
   LoginPage_handleSubmit scenario_host jane_storage (js ''bob'') (js ''abcd'') \<noteq>
     Inr (LoginFailed (js ''Invalid email or password.''), jane_storage)"
  by (simp add: readUsers_jane normalise_samples validateEmail_samples jane_def user_record_def
        own_prop_def LoginPage_handleSubmit_def LoginPage_validate_def Let_def js_simps
        del: validateEmail.simps)

text \<open>C3, as amended: after a registration that succeeds, a second registration with an
  email of the same trimmed, lower-cased value always fails and leaves the storage as it
  is; its message is that of the first rule that fails, in the order name, password,
  confirmation, and the duplicate-email message when these three pass; and the stored list
  holds exactly one record with that lower-cased email. The claim as stated fails on a
  second call with the name \<open>J\<close>, which reports the name message, and on the email in
  capital alpha, capital sigma followed by the one in small alpha, small sigma, which the
  host lower-cases to different values so that both are registered.\<close>

theorem register_twice:
  assumes reg: "RegisterPage_handleSubmit H ls name email password confirm = Inr (SuccessMsg msg, ls')"
    and codec: "reads_back H ls'"
    and same: "String_toLowerCase H (safeTrim email') = String_toLowerCase H (safeTrim email)"
  shows "RegisterPage_handleSubmit H ls' name' email' password' confirm' =
           Inr (ErrorMsg
                  (if length (safeTrim name') < 2
                   then js ''Name must be at least 2 characters.''
                   else if length (safeTrim password') < 4
                   then js ''Password must be at least 4 characters.''
                   else if safeTrim password' \<noteq> safeTrim confirm'
                   then js ''Passwords do not match.''
                   else js ''An account with this email already exists.''),
                ls') \<and>
         (\<exists>users'. readUsers H ls' = Inr users' \<and>
            length (filter (\<lambda>u. own_prop u (js ''email'') =
                               Some (JStr (String_toLowerCase H (safeTrim email))))
                      users') = 1)"
proof -
  let ?e = "String_toLowerCase H (safeTrim email)"
  let ?r = "user_record (safeTrim name) ?e (safeTrim password)"
  obtain users where
    users: "readUsers H ls = Inr users"
    and fresh: "some_js (email_is ?e) users = Inr False"
    and name: "2 \<le> length (safeTrim name)"
    and valid: "validateEmail (JStr ?e)"
    and password: "4 \<le> length (safeTrim password)"
    and confirm: "safeTrim password = safeTrim confirm"
    and ls': "ls' = writeUsers H (users @ [?r]) ls"
    by (rule register_success [OF reg])
  have miss: "\<forall>u\<in>set users. email_is ?e u = Inr False"
    using fresh by (rule some_js_false)
  have hit: "email_is ?e ?r = Inr True"
    by (simp add: email_is_own user_record_props)
  have dup: "some_js (email_is ?e) (users @ [?r]) = Inr True"
    using some_js_append_hit [OF miss hit, of "[]"] by simp
  have read: "readUsers H ls' = Inr (users @ [?r])"
    using codec unfolding ls' by (rule readUsers_writeUsers)
  have "\<forall>u\<in>set users. own_prop u (js ''email'') \<noteq> Some (JStr ?e)"
    using miss email_is_False by blast
  then have "filter (\<lambda>u. own_prop u (js ''email'') = Some (JStr ?e)) users = []"
    by (simp add: filter_empty_conv)
  then have one: "length (filter (\<lambda>u. own_prop u (js ''email'') = Some (JStr ?e)) (users @ [?r])) = 1"
    by (simp add: user_record_props)
  have run: "RegisterPage_handleSubmit H ls' name' email' password' confirm' =
      Inr (ErrorMsg
            (if length (safeTrim name') < 2 then js ''Name must be at least 2 characters.''
             else if length (safeTrim password') < 4 then js ''Password must be at least 4 characters.''
             else if safeTrim password' \<noteq> safeTrim confirm' then js ''Passwords do not match.''
             else js ''An account with this email already exists.''), ls')"
    using valid by (simp add: RegisterPage_handleSubmit_def Let_def same read dup
          del: validateEmail.simps)
  have count: "\<exists>users'. readUsers H ls' = Inr users' \<and>
      length (filter (\<lambda>u. own_prop u (js ''email'') = Some (JStr ?e)) users') = 1"
    using read one by blast
  from conjI [OF run count] show ?thesis .
qed

theorem register_twice_witness:
  "RegisterPage_handleSubmit scenario_host jane_storage (js ''Bob Roe'') (js '' JANE@x.com '')
       (js ''wxyz'') (js ''wxyz'') =
     Inr (ErrorMsg (js ''An account with this email already exists.''), jane_storage) \<and>
   RegisterPage_handleSubmit scenario_host jane_storage (js ''Bob Roe'') (js '' JANE@x.com '')
       (js ''abcd'') (js ''abce'') =
     Inr (ErrorMsg (js ''Passwords do not match.''), jane_storage) \<and>
   readUsers scenario_host jane_storage = Inr [jane] \<and>
   length (filter (\<lambda>u. own_prop u (js ''email'') = Some (JStr (js ''jane@x.com''))) [jane]) = 1"
  using register_twice [OF register_jane reads_back_jane, where email' = "js '' JANE@x.com ''"
      and name' = "js ''Bob Roe''" and password' = "js ''wxyz''" and confirm' = "js ''wxyz''"]
    register_twice [OF register_jane reads_back_jane, where email' = "js '' JANE@x.com ''"
      and name' = "js ''Bob Roe''" and password' = "js ''abcd''" and confirm' = "js ''abce''"]
  by (simp add: safeTrim_samples normalise_samples readUsers_jane js_simps)

theorem register_twice_counterexample:
  "RegisterPage_handleSubmit scenario_host Map.empty (js ''Jane Doe'') (js ''jane@x.com'')
       (js ''abcd'') (js ''abcd'') =
     Inr (SuccessMsg (js ''Registration successful. You can now log in.''), jane_storage) \<and>
   RegisterPage_handleSubmit scenario_host jane_storage (js ''J'') (js ''jane@x.com'')
       (js ''abcd'') (js ''abcd'') =
     Inr (ErrorMsg (js ''Name must be at least 2 characters.''), jane_storage) \<and>
   RegisterPage_handleSubmit sigma_host Map.empty (js ''Alpha Sigma'') sigma_capitals
       (js ''abcd'') (js ''abcd'') =
     Inr (SuccessMsg (js ''Registration successful. You can now log in.''), sigma_storage) \<and>
   map small_letter sigma_capitals = sigma_small \<and>
   RegisterPage_handleSubmit sigma_host sigma_storage (js ''Alpha Sigma'') sigma_small
       (js ''abcd'') (js ''abcd'') =
     Inr (SuccessMsg (js ''Registration successful. You can now log in.''), sigma_storage2) \<and>
   readUsers sigma_host sigma_storage2 = Inr [sigma_user, sigma_user2]"
  by (simp add: register_jane register_short_name register_sigma sigma_small_letters
        register_sigma_small readUsers_sigma)

text \<open>C4: for every stored user list and session, \<open>handleSave\<close> with a trimmed name shorter
  than 2 characters, or a trimmed password shorter than 4 characters, or a session email
  that matches no stored record, returns the message of the check that fails and leaves
  the storage as it is: \<open>writeUsers\<close> is not called.\<close>

theorem handleSave_rejects:
  assumes users: "readUsers H ls = Inr users"
  shows "(length (safeTrim name) < 2 \<longrightarrow>
            AccountPage_handleSave H ls session name password =
              Inr (ErrorMsg (js ''Name must be at least 2 characters.''), ls)) \<and>
         (2 \<le> length (safeTrim name) \<and> length (safeTrim password) < 4 \<longrightarrow>
            AccountPage_handleSave H ls session name password =
              Inr (ErrorMsg (js ''Password must be at least 4 characters.''), ls)) \<and>
         (2 \<le> length (safeTrim name) \<and> 4 \<le> length (safeTrim password) \<and>
          session \<noteq> JNull \<and> JNull \<notin> set users \<and>
          (\<forall>u\<in>set users. \<not> strict_eq (own_prop u (js ''email'')) (own_prop session (js ''email''))) \<longrightarrow>
            AccountPage_handleSave H ls session name password =
              Inr (ErrorMsg (js ''User not found.''), ls))"
proof (intro conjI impI)
  assume "length (safeTrim name) < 2"
  then show "AccountPage_handleSave H ls session name password =
      Inr (ErrorMsg (js ''Name must be at least 2 characters.''), ls)"
    by (simp add: AccountPage_handleSave_def)
next
  assume "2 \<le> length (safeTrim name) \<and> length (safeTrim password) < 4"
  then show "AccountPage_handleSave H ls session name password =
      Inr (ErrorMsg (js ''Password must be at least 4 characters.''), ls)"
    by (simp add: AccountPage_handleSave_def)
next
  assume a: "2 \<le> length (safeTrim name) \<and> 4 \<le> length (safeTrim password) \<and>
          session \<noteq> JNull \<and> JNull \<notin> set users \<and>
          (\<forall>u\<in>set users. \<not> strict_eq (own_prop u (js ''email'')) (own_prop session (js ''email'')))"
  then have "\<forall>u\<in>set users. u \<noteq> JNull" by auto
  with a have "\<forall>u\<in>set users. session_match session u = Inr False"
    by (simp add: session_match_own)
  then have "findIndex_js (session_match session) users = Inr None"
    by (rule findIndex_js_none)
  with a users show "AccountPage_handleSave H ls session name password =
      Inr (ErrorMsg (js ''User not found.''), ls)"
    by (simp add: AccountPage_handleSave_def)
qed

theorem handleSave_rejects_witness:
  "AccountPage_handleSave scenario_host jane_storage jane_session (js ''J'') (js ''abcd'') =
     Inr (ErrorMsg (js ''Name must be at least 2 characters.''), jane_storage) \<and>
   AccountPage_handleSave scenario_host jane_storage jane_session (js ''Jane Doe'') (js ''abc'') =
     Inr (ErrorMsg (js ''Password must be at least 4 characters.''), jane_storage) \<and>
   AccountPage_handleSave scenario_host jane_storage (JObj [(js ''email'', JStr (js ''bob@x.com''))])
       (js ''Jane Doe'') (js ''abcd'') =
     Inr (ErrorMsg (js ''User not found.''), jane_storage)"
  using handleSave_rejects [OF readUsers_jane, where name = "js ''J''" and session = jane_session and password = "js ''abcd''"]
    handleSave_rejects [OF readUsers_jane, where name = "js ''Jane Doe''" and session = jane_session and password = "js ''abc''"]
    handleSave_rejects [OF readUsers_jane, where name = "js ''Jane Doe''" and password = "js ''abcd''"
      and session = "JObj [(js ''email'', JStr (js ''bob@x.com''))]"]
  by (simp add: safeTrim_samples jane_def jane_session_def user_record_def own_prop_def js_simps)



text \<open>C6, as amended: \<open>writeUsers(readUsers())\<close> replaces the users record by the
  serialisation of the list that \<open>readUsers()\<close> returned and leaves every other key alone;
  when parsing gives that list back, \<open>readUsers()\<close> returns the same list afterwards and
  a second round trip leaves the storage exactly as the first one left it. The
  claim as stated fails on storage without a users record, where the round trip creates
  one holding \<open>[]\<close>.\<close>

theorem roundtrip_effect:
  "\<exists>users. readUsers H ls = Inr users \<and>
      roundtrip H ls = Inr (writeUsers H users ls) \<and>
      (\<forall>k. k \<noteq> STORAGE_KEYS_users \<longrightarrow> writeUsers H users ls k = ls k) \<and>
      (reads_back H (writeUsers H users ls) \<longrightarrow>
         readUsers H (writeUsers H users ls) = Inr users \<and>
         roundtrip H (writeUsers H users ls) = Inr (writeUsers H users ls))"
proof -
  obtain users where users: "readUsers H ls = Inr users"
    using readUsers_total by blast
  have first: "roundtrip H ls = Inr (writeUsers H users ls)"
    by (simp add: roundtrip_def users)
  have others: "\<forall>k. k \<noteq> STORAGE_KEYS_users \<longrightarrow> writeUsers H users ls k = ls k"
    by (simp add: writeUsers_def)
  have again: "readUsers H (writeUsers H users ls) = Inr users \<and>
      roundtrip H (writeUsers H users ls) = Inr (writeUsers H users ls)"
    if "reads_back H (writeUsers H users ls)"
    using readUsers_writeUsers [OF that] by (simp add: roundtrip_def writeUsers_twice)
  from users first others again show ?thesis by blast
qed

theorem roundtrip_effect_witness:
  "roundtrip scenario_host Map.empty = Inr [STORAGE_KEYS_users \<mapsto> (js ''[]'')] \<and>
   roundtrip scenario_host [STORAGE_KEYS_users \<mapsto> (js ''[]'')] = Inr [STORAGE_KEYS_users \<mapsto> (js ''[]'')] \<and>
   readUsers scenario_host [STORAGE_KEYS_users \<mapsto> (js ''[]'')] = Inr [] \<and>
   roundtrip scenario_host jane_storage = Inr jane_storage"
  using roundtrip_effect [of scenario_host Map.empty]
    roundtrip_effect [of scenario_host jane_storage]
  by (simp add: readUsers_empty readUsers_jane writeUsers_scenario reads_back_empty_list reads_back_jane)

theorem roundtrip_counterexample:
  "roundtrip scenario_host Map.empty = Inr [STORAGE_KEYS_users \<mapsto> (js ''[]'')] \<and>
   ([STORAGE_KEYS_users \<mapsto> (js ''[]'')] :: storage) STORAGE_KEYS_users \<noteq> Map.empty STORAGE_KEYS_users"
  by (simp add: roundtrip_def readUsers_empty writeUsers_scenario)

text \<open>C7: for every string \<open>s\<close>, \<open>validateEmail(s)\<close> is true if \<open>s\<close> contains both an
  \<open>@\<close> and a \<open>.\<close>, at any positions, and false if it lacks either.\<close>

theorem validateEmail_iff:
  "validateEmail (JStr s) \<longleftrightarrow> of_char CHR ''@'' \<in> set s \<and> of_char CHR ''.'' \<in> set s"
proof -
  have at: "includes_js s (js ''@'') \<longleftrightarrow> of_char CHR ''@'' \<in> set s"
    by (simp add: js_def includes_js_single)
  have dot: "includes_js s (js ''.'') \<longleftrightarrow> of_char CHR ''.'' \<in> set s"
    by (simp add: js_def includes_js_single)
  show ?thesis
    by (simp only: validateEmail.simps at dot)
qed

text \<open>C8: \<open>RegisterPage.handleSubmit\<close> checks the rules in the order name length, email
  shape, password length, confirmation, email uniqueness; the first rule that fails
  returns its own message and leaves the storage as it is; when all five pass, success is
  reported and the storage differs from the old one in the users record only, which now
  holds the serialisation of the old list with exactly one new record at its end (so that
  list is what \<open>readUsers\<close> returns next, when parsing gives it back); the session record
  is untouched.\<close>

theorem register_rules_in_order:
  assumes users: "readUsers H ls = Inr users" and wf: "JNull \<notin> set users"
  shows
    "(let fullName = safeTrim name; eMail = String_toLowerCase H (safeTrim email);
          pass = safeTrim password; conf = safeTrim confirm;
          result = RegisterPage_handleSubmit H ls name email password confirm;
          users' = users @ [user_record fullName eMail pass];
          ls' = ls(STORAGE_KEYS_users \<mapsto> JSON_stringify H (JArr users'))
      in (length fullName < 2 \<longrightarrow>
            result = Inr (ErrorMsg (js ''Name must be at least 2 characters.''), ls)) \<and>
         (2 \<le> length fullName \<and> \<not> validateEmail (JStr eMail) \<longrightarrow>
            result = Inr (ErrorMsg (js ''Please enter a valid email.''), ls)) \<and>
         (2 \<le> length fullName \<and> validateEmail (JStr eMail) \<and> length pass < 4 \<longrightarrow>
            result = Inr (ErrorMsg (js ''Password must be at least 4 characters.''), ls)) \<and>
         (2 \<le> length fullName \<and> validateEmail (JStr eMail) \<and> 4 \<le> length pass \<and> pass \<noteq> conf \<longrightarrow>
            result = Inr (ErrorMsg (js ''Passwords do not match.''), ls)) \<and>
         (2 \<le> length fullName \<and> validateEmail (JStr eMail) \<and> 4 \<le> length pass \<and> pass = conf \<and>
          (\<exists>u\<in>set users. own_prop u (js ''email'') = Some (JStr eMail)) \<longrightarrow>
            result = Inr (ErrorMsg (js ''An account with this email already exists.''), ls)) \<and>
         (2 \<le> length fullName \<and> validateEmail (JStr eMail) \<and> 4 \<le> length pass \<and> pass = conf \<and>
          (\<forall>u\<in>set users. own_prop u (js ''email'') \<noteq> Some (JStr eMail)) \<longrightarrow>
            result = Inr (SuccessMsg (js ''Registration successful. You can now log in.''), ls') \<and>
            ls' STORAGE_KEYS_users = Some (JSON_stringify H (JArr users')) \<and>
            (\<forall>k. k \<noteq> STORAGE_KEYS_users \<longrightarrow> ls' k = ls k) \<and>
            ls' STORAGE_KEYS_session = ls STORAGE_KEYS_session \<and>
            length users' = Suc (length users) \<and> take (length users) users' = users \<and>
            (reads_back H ls' \<longrightarrow> readUsers H ls' = Inr users')))"
proof -
  let ?e = "String_toLowerCase H (safeTrim email)"
  let ?users' = "users @ [user_record (safeTrim name) ?e (safeTrim password)]"
  let ?ls' = "ls(STORAGE_KEYS_users \<mapsto> JSON_stringify H (JArr ?users'))"
  have stored: "writeUsers H ?users' ls = ?ls'"
    by (simp add: writeUsers_def)
  have session: "?ls' STORAGE_KEYS_session = ls STORAGE_KEYS_session"
    using writeUsers_session_key [of H ?users' ls] by (simp only: stored)
  have reread: "readUsers H ?ls' = Inr ?users'" if "reads_back H ?ls'"
    using readUsers_writeUsers [of H ?users' ls] that by (simp only: stored)
  have run: "RegisterPage_handleSubmit H ls name email password confirm =
      (if length (safeTrim name) < 2
       then Inr (ErrorMsg (js ''Name must be at least 2 characters.''), ls)
       else if \<not> validateEmail (JStr ?e)
       then Inr (ErrorMsg (js ''Please enter a valid email.''), ls)
       else if length (safeTrim password) < 4
       then Inr (ErrorMsg (js ''Password must be at least 4 characters.''), ls)
       else if safeTrim password \<noteq> safeTrim confirm
       then Inr (ErrorMsg (js ''Passwords do not match.''), ls)
       else if \<exists>u\<in>set users. own_prop u (js ''email'') = Some (JStr ?e)
       then Inr (ErrorMsg (js ''An account with this email already exists.''), ls)
       else Inr (SuccessMsg (js ''Registration successful. You can now log in.''), ?ls'))"
    using users some_js_email_is [OF wf, of ?e]
    by (simp add: RegisterPage_handleSubmit_def Let_def writeUsers_def del: validateEmail.simps)
  show ?thesis
    unfolding Let_def run using session reread
    by (auto simp del: validateEmail.simps fun_upd_apply simp add: fun_upd_same fun_upd_other)
qed

theorem register_rules_in_order_witness:
  "RegisterPage_handleSubmit scenario_host jane_storage (js ''J'') (js ''bob@x.com'')
       (js ''wxyz'') (js ''wxyz'') =
     Inr (ErrorMsg (js ''Name must be at least 2 characters.''), jane_storage) \<and>
   RegisterPage_handleSubmit scenario_host jane_storage (js ''Bob Roe'') (js ''janex.com'')
       (js ''wxyz'') (js ''wxyz'') =
     Inr (ErrorMsg (js ''Please enter a valid email.''), jane_storage) \<and>
   RegisterPage_handleSubmit scenario_host jane_storage (js ''Bob Roe'') (js ''bob@x.com'')
       (js ''abc'') (js ''abc'') =
     Inr (ErrorMsg (js ''Password must be at least 4 characters.''), jane_storage) \<and>
   RegisterPage_handleSubmit scenario_host jane_storage (js ''Bob Roe'') (js ''bob@x.com'')
       (js ''abcd'') (js ''abce'') =
     Inr (ErrorMsg (js ''Passwords do not match.''), jane_storage) \<and>
   RegisterPage_handleSubmit scenario_host jane_storage (js ''Bob Roe'') (js '' JANE@x.com '')
       (js ''wxyz'') (js ''wxyz'') =
     Inr (ErrorMsg (js ''An account with this email already exists.''), jane_storage) \<and>
   RegisterPage_handleSubmit scenario_host Map.empty (js ''Jane Doe'') (js ''jane@x.com'')
       (js ''abcd'') (js ''abcd'') =
     Inr (SuccessMsg (js ''Registration successful. You can now log in.''),
          [STORAGE_KEYS_users \<mapsto> users_text]) \<and>
   readUsers scenario_host [STORAGE_KEYS_users \<mapsto> users_text] = Inr [jane]"
proof -
  have wf: "JNull \<notin> set [jane]" "JNull \<notin> set []"
    by (simp_all add: jane_def user_record_def)
  note stored = register_rules_in_order [OF readUsers_jane wf(1)]
  note empty = register_rules_in_order [OF readUsers_empty wf(2)]
  have faithful: "reads_back scenario_host [STORAGE_KEYS_users \<mapsto> users_text]"
    using reads_back_jane by (simp add: jane_storage_def)
  have written: "JSON_stringify scenario_host (JArr [jane]) = users_text"
    by (simp add: stringify_scenario_users)
  have email: "own_prop jane (js ''email'') = Some (JStr (js ''jane@x.com''))"
    by (simp add: jane_def user_record_props)
  show ?thesis
    using stored [where name = "js ''J''" and email = "js ''bob@x.com''" and password = "js ''wxyz''" and confirm = "js ''wxyz''"]
      stored [where name = "js ''Bob Roe''" and email = "js ''janex.com''" and password = "js ''wxyz''" and confirm = "js ''wxyz''"]
      stored [where name = "js ''Bob Roe''" and email = "js ''bob@x.com''" and password = "js ''abc''" and confirm = "js ''abc''"]
      stored [where name = "js ''Bob Roe''" and email = "js ''bob@x.com''" and password = "js ''abcd''" and confirm = "js ''abce''"]
      stored [where name = "js ''Bob Roe''" and email = "js '' JANE@x.com ''" and password = "js ''wxyz''" and confirm = "js ''wxyz''"]
      empty [where name = "js ''Jane Doe''" and email = "js ''jane@x.com''" and password = "js ''abcd''" and confirm = "js ''abcd''"]
      faithful written email
    by (simp add: Let_def safeTrim_samples normalise_samples validateEmail_samples
          jane_def [symmetric] js_simps del: validateEmail.simps fun_upd_apply)
qed

text \<open>C9: whatever the storage holds, \<open>readUsers\<close> and \<open>readSession\<close> return a value and
  never raise; \<open>readUsers\<close> returns \<open>[]\<close> when the users record is absent, does not parse
  or is not an array, and \<open>readSession\<close> returns \<open>null\<close> when the session record is absent
  or does not parse.\<close>

theorem reads_fall_back:
  "(\<exists>xs. readUsers H ls = Inr xs) \<and> (\<exists>v. readSession H ls = Inr v) \<and>
   (ls STORAGE_KEYS_users = None \<longrightarrow> readUsers H ls = Inr []) \<and>
   (\<forall>raw. ls STORAGE_KEYS_users = Some raw \<and> JSON_parse H raw = None \<longrightarrow> readUsers H ls = Inr []) \<and>
   (\<forall>raw v. ls STORAGE_KEYS_users = Some raw \<and> JSON_parse H raw = Some v \<and> (\<forall>xs. v \<noteq> JArr xs)
      \<longrightarrow> readUsers H ls = Inr []) \<and>
   (ls STORAGE_KEYS_session = None \<longrightarrow> readSession H ls = Inr JNull) \<and>
   (\<forall>raw. ls STORAGE_KEYS_session = Some raw \<and> JSON_parse H raw = None \<longrightarrow> readSession H ls = Inr JNull)"
proof -
  have a: "readUsers H ls = Inr []" if "ls STORAGE_KEYS_users = None"
    using that by (simp add: readUsers_def readUsers_try_def)
  have b: "readUsers H ls = Inr []" if "ls STORAGE_KEYS_users = Some raw" "JSON_parse H raw = None" for raw
    using that by (simp add: readUsers_def readUsers_try_def)
  have c: "readUsers H ls = Inr []"
    if "ls STORAGE_KEYS_users = Some raw" "JSON_parse H raw = Some v" "\<forall>xs. v \<noteq> JArr xs" for raw v
    using that by (cases v) (simp_all add: readUsers_def readUsers_try_def)
  have d: "readSession H ls = Inr JNull" if "ls STORAGE_KEYS_session = None"
    using that by (simp add: readSession_def readSession_try_def)
  have e: "readSession H ls = Inr JNull" if "ls STORAGE_KEYS_session = Some raw" "JSON_parse H raw = None" for raw
    using that by (simp add: readSession_def readSession_try_def)
  from a b c d e readUsers_total readSession_total show ?thesis by blast
qed

theorem reads_fall_back_witness:
  "readUsers scenario_host Map.empty = Inr [] \<and>
   readSession scenario_host Map.empty = Inr JNull \<and>
   readUsers scenario_host [STORAGE_KEYS_users \<mapsto> (js ''{not json''), STORAGE_KEYS_session \<mapsto> (js ''{not json'')] = Inr [] \<and>
   readSession scenario_host [STORAGE_KEYS_users \<mapsto> (js ''{not json''), STORAGE_KEYS_session \<mapsto> (js ''{not json'')] = Inr JNull \<and>
   readUsers scenario_host [STORAGE_KEYS_users \<mapsto> session_text] = Inr []"
  using reads_fall_back [of scenario_host Map.empty]
    reads_fall_back [of scenario_host "[STORAGE_KEYS_users \<mapsto> (js ''{not json''), STORAGE_KEYS_session \<mapsto> (js ''{not json'')]"]
    reads_fall_back [of scenario_host "[STORAGE_KEYS_users \<mapsto> session_text]"]
  by (simp add: scenario_parse_junk scenario_parse_session jane_session_def STORAGE_KEYS_users_def
        STORAGE_KEYS_session_def js_simps)

text \<open>C10: in storage populated through registration and profile updates only, every
  stored record is normalised (name and password are their own trimmed forms of length at
  least 2 and 4, the email is its own trimmed, lower-cased form), and the list that a
  successful registration or a successful profile update writes there holds normalised
  records only. The host's lower-casing is taken to be stable on trimmed strings:
  trimming and lower-casing the lower case of a trimmed string gives that lower case
  again.\<close>

theorem populated_normalized:
  assumes stable: "lower_stable H" and populated: "populated H ls"
  shows "(\<exists>users. readUsers H ls = Inr users \<and> (\<forall>u\<in>set users. normalized H u)) \<and>
         (\<forall>name email password confirm msg ls'.
            RegisterPage_handleSubmit H ls name email password confirm = Inr (SuccessMsg msg, ls') \<longrightarrow>
            (\<exists>written. ls' = writeUsers H written ls \<and> (\<forall>u\<in>set written. normalized H u))) \<and>
         (\<forall>session name password msg ls'.
            AccountPage_handleSave H ls session name password = Inr (SuccessMsg msg, ls') \<longrightarrow>
            (\<exists>written. ls' = writeUsers H written ls \<and> (\<forall>u\<in>set written. normalized H u)))"
proof -
  from populated_invariant [OF stable populated] obtain users where
    users: "readUsers H ls = Inr users" and inv: "\<forall>u\<in>set users. normalized H u"
    by blast
  have reg: "\<exists>written. ls' = writeUsers H written ls \<and> (\<forall>u\<in>set written. normalized H u)"
    if r: "RegisterPage_handleSubmit H ls name email password confirm = Inr (SuccessMsg msg, ls')"
    for name email password confirm msg ls'
  proof -
    let ?r = "user_record (safeTrim name) (String_toLowerCase H (safeTrim email)) (safeTrim password)"
    obtain users0 where
      users0: "readUsers H ls = Inr users0"
      and fresh: "some_js (email_is (String_toLowerCase H (safeTrim email))) users0 = Inr False"
      and name: "2 \<le> length (safeTrim name)"
      and valid: "validateEmail (JStr (String_toLowerCase H (safeTrim email)))"
      and password: "4 \<le> length (safeTrim password)"
      and confirm: "safeTrim password = safeTrim confirm"
      and ls': "ls' = writeUsers H (users0 @ [?r]) ls"
      by (rule register_success [OF r])
    from users users0 have same: "users0 = users" by simp
    have "normalized H ?r" using stable name password by (rule normalized_user_record)
    with inv have "\<forall>u\<in>set (users @ [?r]). normalized H u" by simp
    with ls' same show ?thesis by blast
  qed
  have save: "\<exists>written. ls' = writeUsers H written ls \<and> (\<forall>u\<in>set written. normalized H u)"
    if r: "AccountPage_handleSave H ls session name password = Inr (SuccessMsg msg, ls')"
    for session name password msg ls'
  proof -
    obtain users0 idx where
      users0: "readUsers H ls = Inr users0"
      and idx: "idx < length users0"
      and name: "2 \<le> length (safeTrim name)"
      and password: "4 \<le> length (safeTrim password)"
      and ls': "ls' = writeUsers H (users0[idx := updated_record (users0 ! idx) (safeTrim name) (safeTrim password)]) ls"
      by (rule save_success [OF r])
    from users users0 have same: "users0 = users" by simp
    let ?r = "updated_record (users ! idx) (safeTrim name) (safeTrim password)"
    have "normalized H (users ! idx)" using inv idx same by simp
    then have "normalized H ?r" using name password by (rule normalized_updated_record)
    with inv have "\<forall>u\<in>set (users[idx := ?r]). normalized H u"
      by (auto dest: set_update_subset_insert [THEN subsetD])
    with ls' same show ?thesis by blast
  qed
  from users inv reg save show ?thesis by blast
qed

theorem populated_normalized_witness:
  "lower_stable scenario_host \<and> populated scenario_host roe_storage \<and>
   readUsers scenario_host roe_storage = Inr [jane_roe] \<and> normalized scenario_host jane_roe \<and>
   lower_stable sigma_host \<and> populated sigma_host sigma_storage \<and>
   readUsers sigma_host sigma_storage = Inr [sigma_user] \<and> normalized sigma_host sigma_user"
  using populated_normalized [OF lower_stable_scenario populated_roe]
    populated_normalized [OF lower_stable_sigma populated_sigma]
  by (simp add: lower_stable_scenario populated_roe readUsers_roe lower_stable_sigma
        populated_sigma readUsers_sigma)

end
